theory Spec2Isabelle
  imports Complex_Main "HOL-Library.Multiset" "HOL-Library.Char_ord" "HOL-Library.List_Lexorder"
    "HOL-Library.Sublist"
begin

section \<open>Splitting the trajectories into two halves\<close>

text \<open>
  \<^verbatim>\<open>AnalysisTrajectories.__init__\<close> ends with
  \<^verbatim>\<open>self.dir_halfA = np.sort(self.out_dirs)[::2]\<close> and
  \<^verbatim>\<open>self.dir_halfB = np.sort(self.out_dirs)[1::2]\<close>.
  Directory names are Python strings, compared code point by code point; here they are
  \<open>string\<close> with the lexicographic order of the characters. \<open>np.sort\<close> returns the
  ascending arrangement of its argument, which is what \<open>sort\<close> computes.
\<close>

text \<open>The slice \<^verbatim>\<open>xs[::2]\<close>: every second element, starting with the first.\<close>

fun slice_step2 :: "'a list \<Rightarrow> 'a list" where
  "slice_step2 [] = []"
| "slice_step2 [x] = [x]"
| "slice_step2 (x # y # xs) = x # slice_step2 xs"

text \<open>The slice \<^verbatim>\<open>xs[1::2]\<close>: every second element, starting with the second.\<close>

definition slice_from1_step2 :: "'a list \<Rightarrow> 'a list" where
  "slice_from1_step2 xs = slice_step2 (drop 1 xs)"

definition dir_halfA :: "string list \<Rightarrow> string list" where
  "dir_halfA out_dirs = slice_step2 (sort out_dirs)"

definition dir_halfB :: "string list \<Rightarrow> string list" where
  "dir_halfB out_dirs = slice_from1_step2 (sort out_dirs)"

text \<open>
  The half label of \<^verbatim>\<open>read_traj_info\<close> (lines 622 to 628): \<^verbatim>\<open>'A'\<close> when the directory
  is in \<^verbatim>\<open>dir_halfA\<close>, else \<^verbatim>\<open>'B'\<close> when it is in \<^verbatim>\<open>dir_halfB\<close>, else the integer 0.
\<close>

datatype half = HalfA | HalfB | HalfUnset

definition half_label :: "string list \<Rightarrow> string \<Rightarrow> half" where
  "half_label out_dirs out =
     (if out \<in> set (dir_halfA out_dirs) then HalfA
      else if out \<in> set (dir_halfB out_dirs) then HalfB
      else HalfUnset)"

section \<open>Reading the stat files of one trajectory\<close>

text \<open>
  Exceptions of the Python code are values: a function that can raise returns
  \<open>py_error + 'a\<close>, with \<open>Inl\<close> for the exception.
\<close>

datatype py_error = KeyError | ValueError | IndexError | ZeroDivisionError

text \<open>
  A value of a stat record is a string: \<open>Numeric r\<close> is one that \<^verbatim>\<open>float\<close> accepts, with
  value \<open>r\<close>, and \<open>Text s\<close> is any other (a file name). Scores are \<open>real\<close>: rounding of
  floating point numbers and the value NaN are not part of the model.
\<close>

datatype cell = Numeric real | Text string

definition float_py :: "cell \<Rightarrow> py_error + real" where
  "float_py c = (case c of Numeric r \<Rightarrow> Inr r | Text s \<Rightarrow> Inl ValueError)"

type_synonym field = int

type_synonym stat_record = "field \<rightharpoonup> cell"

text \<open>
  A line of a stat file after \<^verbatim>\<open>eval(line)\<close>: the call raises (\<open>NotValid\<close>), or it gives
  the dictionary of the line.
\<close>

datatype stat_line = NotValid | Evaluated stat_record

text \<open>\<^verbatim>\<open>[d[field] for field in fields]\<close>\<close>

fun lookup_fields :: "stat_record \<Rightarrow> field list \<Rightarrow> py_error + cell list" where
  "lookup_fields d [] = Inr []"
| "lookup_fields d (f # fs) =
     (case d f of
        None \<Rightarrow> Inl KeyError
      | Some c \<Rightarrow>
          (case lookup_fields d fs of Inl e \<Rightarrow> Inl e | Inr cs \<Rightarrow> Inr (c # cs)))"

text \<open>\<^verbatim>\<open>[float(d[field]) for field in fields]\<close>\<close>

fun float_fields :: "stat_record \<Rightarrow> field list \<Rightarrow> py_error + real list" where
  "float_fields d [] = Inr []"
| "float_fields d (f # fs) =
     (case d f of
        None \<Rightarrow> Inl KeyError
      | Some c \<Rightarrow>
          (case float_py c of
             Inl e \<Rightarrow> Inl e
           | Inr r \<Rightarrow>
               (case float_fields d fs of Inl e \<Rightarrow> Inl e | Inr rs \<Rightarrow> Inr (r # rs))))"

text \<open>
  The attributes of \<^verbatim>\<open>self\<close> that the functions below read. \<^verbatim>\<open>get_restraint_fields\<close>
  builds \<^verbatim>\<open>all_fields\<close> starting with the field of \<^verbatim>\<open>MonteCarlo_Nframe\<close> and
  \<^verbatim>\<open>restraint_names\<close> starting with \<^verbatim>\<open>'MC_frame'\<close> (lines 189 to 192); the record
  holds that first field as \<open>fframe\<close> and the fields and names that follow it as
  \<open>more_fields\<close> and \<open>more_names\<close>. A header without a frame counter is outside the
  model.
\<close>

record analysis =
  fframe :: field
  more_fields :: "field list"
  more_names :: "string list"
  xls_fields :: "field list"
  XLs_names :: "string list"
  atomic_XLs_names :: "string list"
  XLs_restraint :: bool
  sum_XLs_restraint :: bool
  atomic_XLs_restraint :: bool
  sum_atomic_XLs_restraint :: bool
  Excluded_volume_restraint :: bool
  sum_Excluded_volume_restraint :: bool
  Connectivity_restraint :: bool
  sum_Connectivity_restraint :: bool
  Binding_restraint :: bool
  sum_Binding_restraint :: bool
  Distance_restraint :: bool
  sum_Distance_restraint :: bool
  MembraneExclusion_restraint :: bool
  sum_MembraneExclusion_restraint :: bool
  MembraneSurfaceLocation_restraint :: bool
  sum_MembraneSurfaceLocation_restraint :: bool
  DOPE_restraint :: bool
  sum_DOPE_restraint :: bool

definition all_fields :: "analysis \<Rightarrow> field list" where
  "all_fields a = fframe a # more_fields a"

text \<open>\<^verbatim>\<open>[self.restraint_names[x] for x in sorted(self.restraint_names.keys())]\<close>\<close>

definition restraint_names :: "analysis \<Rightarrow> string list" where
  "restraint_names a = ''MC_frame'' # more_names a"

text \<open>
  A row \<^verbatim>\<open>s0\<close> of \<^verbatim>\<open>S_scores\<close>: the numbers of \<^verbatim>\<open>all_fields\<close>, then the trajectory
  and the rmf file. The trajectory is a name or the integer 0 (\<open>Numeric 0\<close>).
\<close>

record score_row =
  vals :: "real list"
  traj :: cell
  rmf3_file :: cell

record accum =
  S_scores :: "score_row list"
  S_dist :: "real list list"
  P_satif :: "real list list"
  warnings :: "nat list"

definition empty_accum :: accum where
  "empty_accum = \<lparr>S_scores = [], S_dist = [], P_satif = [], warnings = []\<rparr>"

text \<open>Lines 396 and 397: the row of one record.\<close>

definition build_row :: "analysis \<Rightarrow> cell \<Rightarrow> field list \<Rightarrow> stat_record \<Rightarrow> py_error + score_row" where
  "build_row a trj query_rmf_file d =
     (case lookup_fields d query_rmf_file of
        Inl e \<Rightarrow> Inl e
      | Inr [] \<Rightarrow> Inl IndexError
      | Inr (frmf # _) \<Rightarrow>
          (case float_fields d (all_fields a) of
             Inl e \<Rightarrow> Inl e
           | Inr vs \<Rightarrow> Inr \<lparr>vals = vs, traj = trj, rmf3_file = frmf\<rparr>))"

text \<open>
  Lines 396 to 404: the body of the loop for a line after the first. \<^verbatim>\<open>s0[0]\<close> is the
  frame counter, the head of \<open>vals\<close>, which is never empty.
\<close>

definition add_row ::
  "analysis \<Rightarrow> cell \<Rightarrow> field list \<Rightarrow> field list \<Rightarrow> stat_record \<Rightarrow> accum \<Rightarrow> py_error + accum" where
  "add_row a trj satif_fields query_rmf_file d acc =
     (case build_row a trj query_rmf_file d of
        Inl e \<Rightarrow> Inl e
      | Inr s0 \<Rightarrow>
          (let acc1 = acc\<lparr>S_scores := S_scores acc @ [s0]\<rparr> in
           case (if XLs_restraint a \<or> atomic_XLs_restraint a
                 then (case float_fields d (xls_fields a) of
                         Inl e \<Rightarrow> Inl e
                       | Inr ds \<Rightarrow> Inr (acc1\<lparr>S_dist := S_dist acc1 @ [hd (vals s0) # ds]\<rparr>))
                 else Inr acc1) of
             Inl e \<Rightarrow> Inl e
           | Inr acc2 \<Rightarrow>
               (if satif_fields \<noteq> []
                then (case float_fields d satif_fields of
                        Inl e \<Rightarrow> Inl e
                      | Inr ps \<Rightarrow> Inr (acc2\<lparr>P_satif := P_satif acc2 @ [hd (vals s0) # ps]\<rparr>))
                else Inr acc2)))"

text \<open>
  Lines 387 to 404, the loop over the lines of one file; \<open>n\<close> is \<^verbatim>\<open>line_number\<close>
  before the line is read. A line that does not evaluate prints the warning with its
  number and leaves the loop (\<^verbatim>\<open>break\<close>).
\<close>

fun read_lines ::
  "analysis \<Rightarrow> cell \<Rightarrow> field list \<Rightarrow> field list \<Rightarrow> nat \<Rightarrow> stat_line list \<Rightarrow> accum
     \<Rightarrow> py_error + accum" where
  "read_lines a trj satif_fields query_rmf_file n [] acc = Inr acc"
| "read_lines a trj satif_fields query_rmf_file n (l # ls) acc =
     (let line_number = n + 1 in
      case l of
        NotValid \<Rightarrow> Inr (acc\<lparr>warnings := warnings acc @ [line_number]\<rparr>)
      | Evaluated d \<Rightarrow>
          (if line_number > 1
           then (case add_row a trj satif_fields query_rmf_file d acc of
                   Inl e \<Rightarrow> Inl e
                 | Inr acc' \<Rightarrow> read_lines a trj satif_fields query_rmf_file line_number ls acc')
           else read_lines a trj satif_fields query_rmf_file line_number ls acc))"

text \<open>Lines 385 to 404, the loop over the files; each file starts at line number 0.\<close>

fun read_files ::
  "analysis \<Rightarrow> cell \<Rightarrow> field list \<Rightarrow> field list \<Rightarrow> stat_line list list \<Rightarrow> accum
     \<Rightarrow> py_error + accum" where
  "read_files a trj satif_fields query_rmf_file [] acc = Inr acc"
| "read_files a trj satif_fields query_rmf_file (file # files) acc =
     (case read_lines a trj satif_fields query_rmf_file 0 file acc of
        Inl e \<Rightarrow> Inl e
      | Inr acc' \<Rightarrow> read_files a trj satif_fields query_rmf_file files acc')"

text \<open>
  A data frame of scores: the names of the numeric columns and the rows. The columns
  \<^verbatim>\<open>'traj'\<close> and \<^verbatim>\<open>'rmf3_file'\<close> are the two other components of each row; no key
  that \<^verbatim>\<open>add_restraint_type\<close> is called with occurs in these two names. Column names
  are taken to be distinct.
\<close>

record data_frame =
  columns :: "string list"
  rows :: "score_row list"

text \<open>
  \<^verbatim>\<open>pd.DataFrame(S_scores, columns = column_names)\<close> raises when a row has another
  number of entries than there are names.
\<close>

definition DataFrame :: "score_row list \<Rightarrow> string list \<Rightarrow> py_error + data_frame" where
  "DataFrame S names =
     (if \<exists>r \<in> set S. length (vals r) \<noteq> length names then Inl ValueError
      else Inr \<lparr>columns = names, rows = S\<rparr>)"

text \<open>Line 407: \<^verbatim>\<open>S_scores.sort(key=lambda x: float(x[0]))\<close>, a stable sort.\<close>

definition frame_key :: "score_row \<Rightarrow> real" where
  "frame_key x = hd (vals x)"

definition sort_by_frame :: "score_row list \<Rightarrow> score_row list" where
  "sort_by_frame S = sort_key frame_key S"

text \<open>
  \<^verbatim>\<open>add_restraint_type\<close>: the sum, row by row, over the columns whose name contains
  \<^verbatim>\<open>key_id\<close>.
\<close>

definition add_restraint_type :: "data_frame \<Rightarrow> string \<Rightarrow> real list" where
  "add_restraint_type D key_id =
     map (\<lambda>r. sum_list (map snd (filter (\<lambda>cv. sublist key_id (fst cv)) (zip (columns D) (vals r)))))
       (rows D)"

fun index_of :: "string \<Rightarrow> string list \<Rightarrow> nat" where
  "index_of c [] = 0"
| "index_of c (x # xs) = (if x = c then 0 else Suc (index_of c xs))"

text \<open>
  \<^verbatim>\<open>DF.assign(name = values)\<close>: a column of that name is replaced, otherwise the
  column is added after the others.
\<close>

definition assign :: "data_frame \<Rightarrow> string \<Rightarrow> real list \<Rightarrow> data_frame" where
  "assign D name col =
     (if name \<in> set (columns D)
      then D\<lparr>rows := map (\<lambda>rv. (fst rv)\<lparr>vals := (vals (fst rv))[index_of name (columns D) := snd rv]\<rparr>)
                          (zip (rows D) col)\<rparr>
      else D\<lparr>columns := columns D @ [name],
              rows := map (\<lambda>rv. (fst rv)\<lparr>vals := vals (fst rv) @ [snd rv]\<rparr>) (zip (rows D) col)\<rparr>)"

text \<open>One block of lines 413 to 444: under its condition, the sum column of a restraint.\<close>

definition sum_block :: "bool \<Rightarrow> string \<Rightarrow> data_frame \<Rightarrow> data_frame" where
  "sum_block cond short D =
     (if cond then assign D (short @ ''_sum'') (add_restraint_type D (short @ ''_'')) else D)"

text \<open>
  Lines 413 to 444 in their order. The last block, for \<^verbatim>\<open>MSL_sum\<close>, has the condition
  of the block before it (line 442 reads the two flags of \<^verbatim>\<open>MembraneExclusion\<close>).
\<close>

definition add_sums :: "analysis \<Rightarrow> data_frame \<Rightarrow> data_frame" where
  "add_sums a D0 =
     (let D = sum_block (XLs_restraint a \<and> sum_XLs_restraint a) ''XLs'' D0;
          D = sum_block (atomic_XLs_restraint a \<and> sum_atomic_XLs_restraint a) ''atomic_XLs'' D;
          D = sum_block (Excluded_volume_restraint a \<and> sum_Excluded_volume_restraint a) ''EV'' D;
          D = sum_block (Connectivity_restraint a \<and> sum_Connectivity_restraint a) ''CR'' D;
          D = sum_block (Binding_restraint a \<and> sum_Binding_restraint a) ''BR'' D;
          D = sum_block (Distance_restraint a \<and> sum_Distance_restraint a) ''DR'' D;
          D = sum_block (MembraneExclusion_restraint a \<and> sum_MembraneExclusion_restraint a) ''MEX'' D;
          D = sum_block (MembraneExclusion_restraint a \<and> sum_MembraneExclusion_restraint a) ''MSL'' D
      in D)"

text \<open>
  A table of distances: the names of its columns and its rows of numbers, the frame
  counter first.
\<close>

record dist_frame =
  dist_columns :: "string list"
  dist_rows :: "real list list"

text \<open>
  Lines 448 and 449 (and 454, 455, 461, 462): \<^verbatim>\<open>S = np.array(S); S[S[:,0].argsort()]\<close>.
  On an empty list the index \<^verbatim>\<open>[:,0]\<close> raises. The order that \<^verbatim>\<open>argsort\<close> gives to
  rows of equal frame counter is not fixed by numpy; the model keeps their order.
\<close>

definition sort_by_column0 :: "real list list \<Rightarrow> py_error + real list list" where
  "sort_by_column0 S = (if S = [] then Inl IndexError else Inr (sort_key hd S))"

definition DistFrame :: "real list list \<Rightarrow> string list \<Rightarrow> py_error + dist_frame" where
  "DistFrame S names =
     (if \<exists>r \<in> set S. length r \<noteq> length names then Inl ValueError
      else Inr \<lparr>dist_columns = names, dist_rows = S\<rparr>)"

text \<open>The three results of \<^verbatim>\<open>read_stats_detailed\<close>.\<close>

record stats =
  score_table :: data_frame
  dist_table :: "dist_frame option"
  satif_table :: "real list list option"

text \<open>Lines 446 to 472: the distance table, the satisfaction array and the result.\<close>

definition finish_stats :: "analysis \<Rightarrow> field list \<Rightarrow> accum \<Rightarrow> data_frame \<Rightarrow> py_error + stats" where
  "finish_stats a satif_fields acc D =
     (case (if XLs_restraint a
            then (case sort_by_column0 (S_dist acc) of
                    Inl e \<Rightarrow> Inl e
                  | Inr S \<Rightarrow>
                      (case DistFrame S (''MC_frame'' # XLs_names a) of
                         Inl e \<Rightarrow> Inl e
                       | Inr X \<Rightarrow> Inr (S, Some X)))
            else Inr (S_dist acc, None)) of
        Inl e \<Rightarrow> Inl e
      | Inr (S1, DF_XLs) \<Rightarrow>
          (case (if atomic_XLs_restraint a
                 then (case sort_by_column0 S1 of
                         Inl e \<Rightarrow> Inl e
                       | Inr S \<Rightarrow>
                           (case DistFrame S (''MC_frame'' # atomic_XLs_names a) of
                              Inl e \<Rightarrow> Inl e
                            | Inr X \<Rightarrow> Inr (Some X)))
                 else Inr None) of
             Inl e \<Rightarrow> Inl e
           | Inr DF_atomic_XLs \<Rightarrow>
               (case (if satif_fields \<noteq> []
                      then (case sort_by_column0 (P_satif acc) of
                              Inl e \<Rightarrow> Inl e
                            | Inr S \<Rightarrow> Inr (Some S))
                      else Inr None) of
                  Inl e \<Rightarrow> Inl e
                | Inr Ps \<Rightarrow>
                    (if XLs_restraint a then Inr \<lparr>score_table = D, dist_table = DF_XLs, satif_table = Ps\<rparr>
                     else if atomic_XLs_restraint a then Inr \<lparr>score_table = D, dist_table = DF_atomic_XLs, satif_table = Ps\<rparr>
                     else Inr \<lparr>score_table = D, dist_table = None, satif_table = Ps\<rparr>))))"

text \<open>
  \<^verbatim>\<open>read_stats_detailed(traj, stat_files, query_fields, dist_fields, satif_fields,
  query_rmf_file)\<close>. The arguments \<^verbatim>\<open>query_fields\<close> and \<^verbatim>\<open>dist_fields\<close> are not read by
  the function. \<^verbatim>\<open>satif_fields\<close> is a list of fields, empty for \<^verbatim>\<open>None\<close>.
\<close>

definition read_stats_detailed ::
  "analysis \<Rightarrow> cell \<Rightarrow> stat_line list list \<Rightarrow> field list \<Rightarrow> field list \<Rightarrow> py_error + stats" where
  "read_stats_detailed a trj stat_files satif_fields query_rmf_file =
     (case read_files a trj satif_fields query_rmf_file stat_files empty_accum of
        Inl e \<Rightarrow> Inl e
      | Inr acc \<Rightarrow>
          (case DataFrame (sort_by_frame (S_scores acc)) (restraint_names a) of
             Inl e \<Rightarrow> Inl e
           | Inr D \<Rightarrow> finish_stats a satif_fields acc (add_sums a D)))"

text \<open>The column \<^verbatim>\<open>'MC_frame'\<close> of a score table, its first.\<close>

definition MC_frame :: "data_frame \<Rightarrow> real list" where
  "MC_frame D = map frame_key (rows D)"

text \<open>The column of a name, when the table has it.\<close>

definition column :: "data_frame \<Rightarrow> string \<Rightarrow> real list option" where
  "column D c =
     (if c \<in> set (columns D) then Some (map (\<lambda>r. vals r ! index_of c (columns D)) (rows D))
      else None)"

text \<open>
  The lines of a file that give a row, in the words of the specification: the first
  line is the header, and reading stops at the first line that does not parse.
\<close>

fun is_valid :: "stat_line \<Rightarrow> bool" where
  "is_valid NotValid = False"
| "is_valid (Evaluated d) = True"

fun records_of :: "stat_line list \<Rightarrow> stat_record list" where
  "records_of [] = []"
| "records_of (NotValid # ls) = records_of ls"
| "records_of (Evaluated d # ls) = d # records_of ls"

definition data_records :: "stat_line list \<Rightarrow> stat_record list" where
  "data_records file = records_of (drop 1 (takeWhile is_valid file))"

definition shard_warning :: "stat_line list \<Rightarrow> nat list" where
  "shard_warning file =
     (if \<forall>l \<in> set file. is_valid l then [] else [length (takeWhile is_valid file) + 1])"

text \<open>The frame column of the result of \<^verbatim>\<open>read_stats_detailed\<close>, when it returns.\<close>

definition frame_column_of :: "py_error + stats \<Rightarrow> real list option" where
  "frame_column_of res =
     (case res of Inl e \<Rightarrow> None | Inr st \<Rightarrow> Some (MC_frame (score_table st)))"

text \<open>What a file adds to the three lists and to the warnings, as one value.\<close>

definition append_accum :: "accum \<Rightarrow> accum \<Rightarrow> accum" where
  "append_accum acc d =
     \<lparr>S_scores = S_scores acc @ S_scores d, S_dist = S_dist acc @ S_dist d,
      P_satif = P_satif acc @ P_satif d, warnings = warnings acc @ warnings d\<rparr>"

text \<open>
  The shape of the table that \<^verbatim>\<open>pd.DataFrame\<close> builds at line 411: the frame counter
  is the first column and every row has one number for each column.
\<close>

definition well_formed :: "data_frame \<Rightarrow> bool" where
  "well_formed D \<longleftrightarrow> columns D \<noteq> [] \<and> hd (columns D) = ''MC_frame''
     \<and> (\<forall>r \<in> set (rows D). length (vals r) = length (columns D))"

subsection \<open>A small analysis and its stat files\<close>

text \<open>
  The flags as \<^verbatim>\<open>__init__\<close> sets them (no restraint analysed, every sum wanted), with
  the fields 0, 1 and 2 for the frame counter, the rmf frame index and the total score.
\<close>

definition init_analysis :: analysis where
  "init_analysis =
     \<lparr>fframe = 0, more_fields = [1, 2], more_names = [''rmf_frame_index'', ''Total_score''],
      xls_fields = [], XLs_names = [], atomic_XLs_names = [],
      XLs_restraint = False, sum_XLs_restraint = True,
      atomic_XLs_restraint = False, sum_atomic_XLs_restraint = True,
      Excluded_volume_restraint = False, sum_Excluded_volume_restraint = True,
      Connectivity_restraint = False, sum_Connectivity_restraint = True,
      Binding_restraint = False, sum_Binding_restraint = True,
      Distance_restraint = False, sum_Distance_restraint = True,
      MembraneExclusion_restraint = False, sum_MembraneExclusion_restraint = True,
      MembraneSurfaceLocation_restraint = False, sum_MembraneSurfaceLocation_restraint = True,
      DOPE_restraint = False, sum_DOPE_restraint = True\<rparr>"

text \<open>The header line of a file and a line of data; field 9 is the rmf file.\<close>

definition header_line :: stat_line where
  "header_line = Evaluated (\<lambda>k. if k = 0 then Some (Text ''MonteCarlo_Nframe'') else None)"

definition data_line :: "real \<Rightarrow> real \<Rightarrow> stat_line" where
  "data_line frame score =
     Evaluated (\<lambda>k. if k = 0 then Some (Numeric frame)
                     else if k = 1 then Some (Numeric 0)
                     else if k = 2 then Some (Numeric score)
                     else if k = 9 then Some (Text ''0.rmf3'')
                     else None)"

text \<open>
  A line of data of a header with more fields: the score of the cross-links in the
  field 3, the distance of a cross-link in the field 5, and two more scores in the
  fields 6 and 7.
\<close>

definition data_line2 :: "real \<Rightarrow> real \<Rightarrow> real \<Rightarrow> real \<Rightarrow> real \<Rightarrow> real \<Rightarrow> stat_line" where
  "data_line2 frame score xl d x y =
     Evaluated (\<lambda>k. if k = 0 then Some (Numeric frame)
                     else if k = 1 then Some (Numeric 0)
                     else if k = 2 then Some (Numeric score)
                     else if k = 3 then Some (Numeric xl)
                     else if k = 5 then Some (Numeric d)
                     else if k = 6 then Some (Numeric x)
                     else if k = 7 then Some (Numeric y)
                     else if k = 9 then Some (Text ''0.rmf3'')
                     else None)"

definition row_of :: "real list \<Rightarrow> score_row" where
  "row_of vs = \<lparr>vals = vs, traj = Text ''run_1'', rmf3_file = Text ''0.rmf3''\<rparr>"

text \<open>The name of the distance of a cross-link in the header, the name of the field 5.\<close>

definition distance_name :: string where
  "distance_name = ''CrossLinkingMassSpectrometryRestraint_Distance_|DSSO|1.1|A|10|B|20|0|PSI|''"

text \<open>
  The analysis after \<^verbatim>\<open>set_analyze_XLs_restraint(get_nuisances = False)\<close>,
  \<^verbatim>\<open>set_analyze_MembraneSurfaceLocation_restraint()\<close> and \<^verbatim>\<open>get_restraint_fields()\<close>,
  for a header with the fields 0 \<^verbatim>\<open>MonteCarlo_Nframe\<close>, 1 \<^verbatim>\<open>rmf_frame_index\<close>,
  2 \<^verbatim>\<open>Total_Score\<close>, 3 \<^verbatim>\<open>CrossLinkingMassSpectrometryRestraint_Data_Score\<close>, 5 the
  distance of a cross-link, 6 \<^verbatim>\<open>MembraneSurfaceLocation_inner\<close>,
  7 \<^verbatim>\<open>MembraneSurfaceLocation_outer\<close> and 9 \<^verbatim>\<open>rmf_file\<close>. The one field of the score
  of the cross-links is named \<^verbatim>\<open>'XLs_sum'\<close> by \<^verbatim>\<open>get_fields\<close>; the two fields of the
  membrane surface location restraint are named after their endings. (The cross-link
  restraint is analysed because \<^verbatim>\<open>get_restraint_fields\<close> reads \<^verbatim>\<open>self.XLs_info\<close> at line
  251, which only line 211 sets.)
\<close>

definition msl_analysis :: analysis where
  "msl_analysis =
     init_analysis\<lparr>more_fields := [1, 2, 3, 6, 7],
       more_names := [''rmf_frame_index'', ''Total_score'', ''XLs_sum'', ''MSL_inner'', ''MSL_outer''],
       xls_fields := [5], XLs_names := [distance_name],
       XLs_restraint := True,
       MembraneSurfaceLocation_restraint := True\<rparr>"

text \<open>
  The same with \<^verbatim>\<open>set_analyze_Excluded_volume_restraint()\<close> in place of the membrane
  surface location restraint, for a header whose fields 6 and 7 are
  \<^verbatim>\<open>ExcludedVolumeSphere_None\<close> and \<^verbatim>\<open>ExcludedVolumeSphere_rigid\<close>; the excluded volume
  restraint comes first in \<^verbatim>\<open>get_restraint_fields\<close>.
\<close>

definition ev_analysis :: analysis where
  "ev_analysis =
     init_analysis\<lparr>more_fields := [1, 2, 6, 7, 3],
       more_names := [''rmf_frame_index'', ''Total_score'', ''EV_None'', ''EV_rigid'', ''XLs_sum''],
       xls_fields := [5], XLs_names := [distance_name],
       XLs_restraint := True,
       Excluded_volume_restraint := True\<rparr>"

section \<open>The equilibration cutoff of a trajectory\<close>

text \<open>\<^verbatim>\<open>self.th = 50\<close> (line 46), the number of frames left out at the start.\<close>

definition th :: nat where
  "th = 50"

text \<open>
  Lines 562 to 582 of \<^verbatim>\<open>read_traj_info\<close>: the columns that are looked at. \<^verbatim>\<open>x in v\<close> on
  strings is \<open>sublist x v\<close>.
\<close>

definition individual :: "bool \<Rightarrow> string \<Rightarrow> string list \<Rightarrow> string list" where
  "individual cond key cols =
     (if cond then filter (\<lambda>v. sublist key v \<and> \<not> sublist ''sum'' v) cols else [])"

definition sel_entries :: "analysis \<Rightarrow> data_frame \<Rightarrow> string list" where
  "sel_entries a D =
     [''Total_score''] @ filter (\<lambda>v. sublist ''sum'' v) (columns D)
     @ individual (Connectivity_restraint a \<and> \<not> sum_Connectivity_restraint a) ''CR_'' (columns D)
     @ individual (Excluded_volume_restraint a \<and> \<not> sum_Excluded_volume_restraint a) ''EV_'' (columns D)
     @ individual (Binding_restraint a \<and> \<not> sum_Binding_restraint a) ''BR_'' (columns D)
     @ individual (Distance_restraint a \<and> \<not> sum_Distance_restraint a) ''DR_'' (columns D)
     @ individual (XLs_restraint a \<and> \<not> sum_XLs_restraint a) ''XLs_'' (columns D)
     @ individual (atomic_XLs_restraint a \<and> \<not> sum_atomic_XLs_restraint a) ''atomic_XLs_'' (columns D)
     @ individual (DOPE_restraint a \<and> \<not> sum_DOPE_restraint a) ''DOPE_'' (columns D)
     @ filter (\<lambda>v. sublist ''Psi'' v \<and> \<not> sublist ''sum'' v) (columns D)"

text \<open>
  \<^verbatim>\<open>detectEquilibration\<close> is not part of the repository: it is a parameter, a function
  from the values of a column to the three numbers \<^verbatim>\<open>[t, g, N]\<close>, or \<open>None\<close> when it
  raises.
\<close>

type_synonym detector = "real list \<Rightarrow> (nat \<times> real \<times> real) option"

text \<open>
  Lines 587 to 591, the body of the loop for one column \<^verbatim>\<open>r\<close>: the \<^verbatim>\<open>try\<close> holds the
  reading of the column and the call, and any exception gives 0. The table has the
  index 0, 1, 2, ... of its rows, so \<^verbatim>\<open>.loc[self.th:]\<close> leaves the first \<open>th\<close> rows out.
\<close>

definition column_cutoff :: "detector \<Rightarrow> data_frame \<Rightarrow> string \<Rightarrow> nat" where
  "column_cutoff detectEquilibration D r =
     (case column D r of
        None \<Rightarrow> 0
      | Some c \<Rightarrow>
          (case detectEquilibration (drop th c) of
             None \<Rightarrow> 0
           | Some (t, g, N) \<Rightarrow> t))"

text \<open>Lines 585 to 591: the list \<^verbatim>\<open>ts_eq\<close>.\<close>

fun ts_eq :: "detector \<Rightarrow> data_frame \<Rightarrow> string list \<Rightarrow> nat list" where
  "ts_eq detectEquilibration D [] = []"
| "ts_eq detectEquilibration D (r # rs) =
     column_cutoff detectEquilibration D r # ts_eq detectEquilibration D rs"

text \<open>\<^verbatim>\<open>np.max\<close> of a list; it raises on the empty list.\<close>

definition np_max :: "nat list \<Rightarrow> py_error + nat" where
  "np_max xs = (case xs of [] \<Rightarrow> Inl ValueError | x # ys \<Rightarrow> Inr (fold max ys x))"

text \<open>Line 593: \<^verbatim>\<open>ts_max = np.max(ts_eq) + self.th\<close>.\<close>

definition ts_max :: "detector \<Rightarrow> analysis \<Rightarrow> data_frame \<Rightarrow> py_error + nat" where
  "ts_max detectEquilibration a D =
     (case np_max (ts_eq detectEquilibration D (sel_entries a D)) of
        Inl e \<Rightarrow> Inl e
      | Inr m \<Rightarrow> Inr (m + th))"

text \<open>
  A table of 53 rows with the frames 0 to 52 and the scores 100 down to 48, and a
  detector that gives the index of the least value and fails on fewer than three values.
\<close>

definition long_table :: data_frame where
  "long_table =
     \<lparr>columns = [''MC_frame'', ''rmf_frame_index'', ''Total_score''],
      rows = map (\<lambda>i. row_of [real i, 0, 100 - real i]) [0..<53]\<rparr>"

fun argmin_from :: "real list \<Rightarrow> nat \<Rightarrow> nat \<Rightarrow> real \<Rightarrow> nat" where
  "argmin_from [] i best v = best"
| "argmin_from (x # xs) i best v =
     (if x < v then argmin_from xs (i + 1) i x else argmin_from xs (i + 1) best v)"

definition example_detector :: detector where
  "example_detector xs =
     (if length xs < 3 then None else Some (argmin_from (tl xs) 1 0 (hd xs), 1, real (length xs)))"

section \<open>Satisfaction of the cross-links\<close>

text \<open>
  The attributes of \<^verbatim>\<open>self\<close> that \<^verbatim>\<open>get_XLs_satisfaction\<close> reads. A dictionary is the
  list of its items, in their order. \<^verbatim>\<open>check_XLs_ambiguity\<close> builds the dictionary of
  the ambiguous cross-links in one of two shapes: from an identifier to the names of its
  columns, or, with several kinds of cross-links, from the kind to such a dictionary.
\<close>

type_synonym xl_groups = "(string \<times> string list) list"

record xls_settings =
  XLs_cutoffs :: "(string \<times> real) list"
  ambiguous_XLs_restraint :: bool
  Multiple_XLs_restraints :: bool
  ambiguous_XLs_dict :: xl_groups
  ambiguous_XLs_dict_by_type :: "(string \<times> xl_groups) list"

text \<open>The truth value of an argument that is \<^verbatim>\<open>None\<close> or a string.\<close>

definition truthy :: "string option \<Rightarrow> bool" where
  "truthy s = (case s of None \<Rightarrow> False | Some x \<Rightarrow> x \<noteq> [])"

text \<open>\<^verbatim>\<open>x in v\<close> for an argument that is a string.\<close>

definition contains :: "string option \<Rightarrow> string \<Rightarrow> bool" where
  "contains s v = (case s of None \<Rightarrow> False | Some x \<Rightarrow> sublist x v)"

text \<open>\<^verbatim>\<open>self.XLs_cutoffs[type_XLs]\<close> and \<^verbatim>\<open>list(self.XLs_cutoffs.values())[0]\<close>.\<close>

definition cutoff_of_type :: "xls_settings \<Rightarrow> string option \<Rightarrow> py_error + real" where
  "cutoff_of_type cfg type_XLs =
     (case type_XLs of
        None \<Rightarrow> Inl KeyError
      | Some t \<Rightarrow> (case map_of (XLs_cutoffs cfg) t of None \<Rightarrow> Inl KeyError | Some c \<Rightarrow> Inr c))"

definition first_cutoff :: "xls_settings \<Rightarrow> py_error + real" where
  "first_cutoff cfg = (case XLs_cutoffs cfg of [] \<Rightarrow> Inl IndexError | kc # _ \<Rightarrow> Inr (snd kc))"

text \<open>Lines 1103 to 1117: the names of the distance columns and the cutoff.\<close>

definition select_distances ::
  "xls_settings \<Rightarrow> string list \<Rightarrow> bool \<Rightarrow> string option \<Rightarrow> string option
     \<Rightarrow> py_error + (string list \<times> real)" where
  "select_distances cfg cols atomic_XLs type_XLs type_psi =
     (if truthy type_XLs \<and> \<not> truthy type_psi then
        (case cutoff_of_type cfg type_XLs of
           Inl e \<Rightarrow> Inl e
         | Inr c \<Rightarrow> Inr (filter (\<lambda>x. sublist ''Distance_'' x \<and> contains type_XLs x) cols, c))
      else if truthy type_psi \<and> \<not> truthy type_XLs then
        (case first_cutoff cfg of
           Inl e \<Rightarrow> Inl e
         | Inr c \<Rightarrow> Inr (filter (\<lambda>x. sublist ''Distance_'' x \<and> contains type_psi x) cols, c))
      else if truthy type_XLs \<and> truthy type_psi then
        (case cutoff_of_type cfg type_XLs of
           Inl e \<Rightarrow> Inl e
         | Inr c \<Rightarrow>
             Inr (filter (\<lambda>x. sublist ''Distance_'' x \<and> contains type_XLs x \<and> contains type_psi x) cols, c))
      else if atomic_XLs then
        (case first_cutoff cfg of
           Inl e \<Rightarrow> Inl e
         | Inr c \<Rightarrow> Inr (filter (\<lambda>x. sublist ''BestDist'' x) cols, c))
      else
        (case first_cutoff cfg of
           Inl e \<Rightarrow> Inl e
         | Inr c \<Rightarrow> Inr (filter (\<lambda>x. sublist ''Distance_'' x) cols, c)))"

text \<open>The values of a row in the columns of the given names.\<close>

definition distances :: "dist_frame \<Rightarrow> real list \<Rightarrow> string list \<Rightarrow> real list" where
  "distances S r names = map (\<lambda>c. r ! index_of c (dist_columns S)) names"

text \<open>\<^verbatim>\<open>S_dist[names]\<close>; a name that is not a column raises.\<close>

definition select_columns :: "dist_frame \<Rightarrow> string list \<Rightarrow> py_error + dist_frame" where
  "select_columns S names =
     (if \<exists>c \<in> set names. c \<notin> set (dist_columns S) then Inl KeyError
      else Inr \<lparr>dist_columns = names, dist_rows = map (\<lambda>r. distances S r names) (dist_rows S)\<rparr>)"

text \<open>
  The least value of a row, as \<^verbatim>\<open>.min(axis=1)\<close> gives it; over no column it is NaN,
  here \<open>None\<close>, and a comparison with NaN is false.
\<close>

definition row_min :: "real list \<Rightarrow> real option" where
  "row_min xs = (case xs of [] \<Rightarrow> None | x # ys \<Rightarrow> Some (fold min ys x))"

definition le_cutoff :: "real \<Rightarrow> real option \<Rightarrow> bool" where
  "le_cutoff cutoff x = (case x of None \<Rightarrow> False | Some d \<Rightarrow> d \<le> cutoff)"

text \<open>
  Lines 1126 to 1130: the table \<^verbatim>\<open>min_XLs\<close>, one column for each ambiguous cross-link,
  row by row the least of its distances.
\<close>

fun min_XLs :: "dist_frame \<Rightarrow> xl_groups \<Rightarrow> py_error + real option list list" where
  "min_XLs X [] = Inr (map (\<lambda>r. []) (dist_rows X))"
| "min_XLs X (kv # groups) =
     (case select_columns X (snd kv) of
        Inl e \<Rightarrow> Inl e
      | Inr G \<Rightarrow>
          (case min_XLs X groups of
             Inl e \<Rightarrow> Inl e
           | Inr M \<Rightarrow> Inr (map (\<lambda>gm. row_min (fst gm) # snd gm) (zip (dist_rows G) M))))"

text \<open>
  \<^verbatim>\<open>lambda x: sum(x<=cutoff)/len(x)\<close> on a row, with the division of
  \<^verbatim>\<open>from __future__ import division\<close>.
\<close>

definition satisfied_fraction :: "real \<Rightarrow> real option list \<Rightarrow> real" where
  "satisfied_fraction cutoff x = real (length (filter (le_cutoff cutoff) x)) / real (length x)"

text \<open>
  \<^verbatim>\<open>list(T.apply(lambda x: sum(x<=cutoff)/len(x), axis=1))\<close> for a table of the given
  number of columns. On a table of no column pandas does not apply the function row by
  row, and the list of the result is empty.
\<close>

definition perc_per_step :: "nat \<Rightarrow> real \<Rightarrow> real option list list \<Rightarrow> real list" where
  "perc_per_step ncols cutoff T = (if ncols = 0 then [] else map (satisfied_fraction cutoff) T)"

text \<open>\<^verbatim>\<open>self.ambiguous_XLs_dict[type_XLs]\<close> or \<^verbatim>\<open>self.ambiguous_XLs_dict\<close> (lines 1125 to 1130).\<close>

definition groups_of :: "xls_settings \<Rightarrow> string option \<Rightarrow> py_error + xl_groups" where
  "groups_of cfg type_XLs =
     (if Multiple_XLs_restraints cfg then
        (case type_XLs of
           None \<Rightarrow> Inl KeyError
         | Some t \<Rightarrow>
             (case map_of (ambiguous_XLs_dict_by_type cfg) t of
                None \<Rightarrow> Inl KeyError
              | Some g \<Rightarrow> Inr g))
      else Inr (ambiguous_XLs_dict cfg))"

text \<open>\<^verbatim>\<open>get_XLs_satisfaction(S_dist, atomic_XLs, type_XLs, type_psi)\<close>\<close>

definition get_XLs_satisfaction ::
  "xls_settings \<Rightarrow> dist_frame \<Rightarrow> bool \<Rightarrow> string option \<Rightarrow> string option \<Rightarrow> py_error + real list" where
  "get_XLs_satisfaction cfg S atomic_XLs type_XLs type_psi =
     (case select_distances cfg (dist_columns S) atomic_XLs type_XLs type_psi of
        Inl e \<Rightarrow> Inl e
      | Inr (dist_cols, cutoff) \<Rightarrow>
          (case select_columns S dist_cols of
             Inl e \<Rightarrow> Inl e
           | Inr XLs_dists \<Rightarrow>
               (if ambiguous_XLs_restraint cfg then
                  (case groups_of cfg type_XLs of
                     Inl e \<Rightarrow> Inl e
                   | Inr groups \<Rightarrow>
                       (case min_XLs XLs_dists groups of
                          Inl e \<Rightarrow> Inl e
                        | Inr M \<Rightarrow> Inr (perc_per_step (length groups) cutoff M)))
                else Inr (perc_per_step (length dist_cols) cutoff
                            (map (map Some) (dist_rows XLs_dists))))))"

text \<open>
  A distance table with the two alternatives of the cross-link 1 and the one distance of
  the cross-link 2, and the settings for it with the cutoff 30.
\<close>

definition xl_names :: "string list" where
  "xl_names =
     [''CrossLinkingMassSpectrometryRestraint_Distance_|DSSO|1.1|A|10|B|20|0|PSI|'',
      ''CrossLinkingMassSpectrometryRestraint_Distance_|DSSO|1.2|A.1|10|B|20|0|PSI|'',
      ''CrossLinkingMassSpectrometryRestraint_Distance_|DSSO|2.1|A|30|B|40|0|PSI|'']"

definition example_dist :: dist_frame where
  "example_dist =
     \<lparr>dist_columns = ''MC_frame'' # xl_names,
      dist_rows = [[10, 45, 25, 50], [20, 45, 35, 28], [30, 12, 35, 28]]\<rparr>"

definition example_settings :: xls_settings where
  "example_settings =
     \<lparr>XLs_cutoffs = [(''DSSO'', 30)], ambiguous_XLs_restraint = True,
      Multiple_XLs_restraints = False,
      ambiguous_XLs_dict = [(''1'', [xl_names ! 0, xl_names ! 1]), (''2'', [xl_names ! 2])],
      ambiguous_XLs_dict_by_type = []\<rparr>"

section \<open>Clusters, convergence of the two halves and the selected models\<close>

text \<open>
  A row of the combined table \<^verbatim>\<open>S_comb\<close> after the clustering: the columns that
  \<^verbatim>\<open>write_hdbscan_clustering\<close>, \<^verbatim>\<open>plot_scores_distributions\<close> and
  \<^verbatim>\<open>write_summary_hdbscan_clustering\<close> read. \<open>scores_of\<close> holds the selected scores.
  The label of the cluster is an integer, -1 for noise. The trajectory is the name of
  its directory, a string, as the lines of the files need it (\<^verbatim>\<open>'h1_'+row.traj\<close>); a
  table with the trajectory 0, which \<^verbatim>\<open>read_traj_info\<close> gives to a directory without
  \<^verbatim>\<open>dir_name\<close> in its path, is outside the model. The frame counter and the rmf frame
  index are the integers \<^verbatim>\<open>int(row.MC_frame)\<close> and \<^verbatim>\<open>int(row.rmf_frame_index)\<close>.
\<close>

record frame =
  traj_of :: string
  MC_frame_of :: int
  rmf_frame_index_of :: int
  rmf3_file_of :: string
  Total_score_of :: real
  scores_of :: "real list"
  half_of :: half
  cluster_of :: int

text \<open>
  What the random number generator decides is a parameter. For a cluster and a size
  \<open>m\<close>, \<open>minimum_stats_A\<close> gives \<^verbatim>\<open>(np.mean(D1), np.std(D1))\<close> of the 20 minima of lines
  963 to 966, and \<open>minimum_stats_B\<close> those of half B; \<open>sampled_rows\<close> gives the positions
  of the rows that \<^verbatim>\<open>HH_cluster.sample(n=29999)\<close> draws, in the order drawn.
\<close>

record draws =
  minimum_stats_A :: "int \<Rightarrow> nat \<Rightarrow> real \<times> real"
  minimum_stats_B :: "int \<Rightarrow> nat \<Rightarrow> real \<times> real"
  sampled_rows :: "int \<Rightarrow> nat list"

text \<open>\<^verbatim>\<open>np.arange(start, stop, step)\<close> on integers that are not negative.\<close>

definition arange :: "nat \<Rightarrow> nat \<Rightarrow> nat \<Rightarrow> py_error + nat list" where
  "arange start stop step =
     (if step = 0 then Inl ZeroDivisionError
      else Inr (map (\<lambda>k. start + k * step) [0..<(stop - start + step - 1) div step]))"

text \<open>Lines 952 to 956: the sizes \<^verbatim>\<open>M\<close> of the subsamples.\<close>

definition sample_sizes :: "nat \<Rightarrow> nat \<Rightarrow> py_error + nat list" where
  "sample_sizes len_A len_B =
     (let nn = len_A + len_B in
      case arange (min len_A len_B div 20) (min len_A len_B) (nn div 20) of
        Inl e \<Rightarrow> Inl e
      | Inr M \<Rightarrow>
          (if length M \<le> 10
           then arange (min len_A len_B div 10) (min len_A len_B) (min len_A len_B div 10)
           else Inr M))"

text \<open>A row of \<^verbatim>\<open>RH1\<close> or \<^verbatim>\<open>RH2\<close>: the size, the mean and the standard deviation.\<close>

type_synonym stat_row = "nat \<times> real \<times> real"

definition size_of :: "stat_row \<Rightarrow> nat" where
  "size_of r = fst r"

definition mean_of :: "stat_row \<Rightarrow> real" where
  "mean_of r = fst (snd r)"

definition std_of :: "stat_row \<Rightarrow> real" where
  "std_of r = snd (snd r)"

text \<open>
  Lines 972 to 981, the loop over \<^verbatim>\<open>s\<close>, from the rows \<^verbatim>\<open>s\<close> and \<^verbatim>\<open>s+1\<close> on, with the
  values of \<^verbatim>\<open>hits\<close> and \<^verbatim>\<open>n\<close>. The test of half B reads \<^verbatim>\<open>RH2[s+1,1]\<close>, the mean. The
  \<^verbatim>\<open>continue\<close> ends the body of the loop, which has nothing after it.
\<close>

fun convergence_loop :: "stat_row list \<Rightarrow> stat_row list \<Rightarrow> nat \<Rightarrow> nat \<Rightarrow> nat" where
  "convergence_loop (a0 # a1 # RH1) (b0 # b1 # RH2) hits n =
     (let dA = mean_of a0 - mean_of a1;
          dB = mean_of b0 - mean_of b1;
          hits = (if dA < std_of a1 \<and> dB < mean_of b1 then hits + 1 else hits);
          n = (if hits = 4 then size_of a1 else n)
      in convergence_loop (a1 # RH1) (b1 # RH2) hits n)"
| "convergence_loop RH1 RH2 hits n = n"

text \<open>
  \<^verbatim>\<open>plot_scores_distributions(HA, HB, cl)\<close>, without the drawing: the value \<^verbatim>\<open>n\<close> that
  it returns. \<^verbatim>\<open>random.sample\<close> raises for a size above the number of scores, and
  \<^verbatim>\<open>RH1[:,0]\<close> (line 984) raises when there is no row.
\<close>

definition plot_scores_distributions ::
  "draws \<Rightarrow> frame list \<Rightarrow> frame list \<Rightarrow> int \<Rightarrow> py_error + nat" where
  "plot_scores_distributions dr HA HB cl =
     (case sample_sizes (length HA) (length HB) of
        Inl e \<Rightarrow> Inl e
      | Inr M \<Rightarrow>
          (if \<exists>m \<in> set (drop 1 M). m > length HA \<or> m > length HB then Inl ValueError
           else
             (let RH1 = map (\<lambda>m. (m, minimum_stats_A dr cl m)) (drop 1 M);
                  RH2 = map (\<lambda>m. (m, minimum_stats_B dr cl m)) (drop 1 M);
                  n = convergence_loop RH1 RH2 0 0
              in if RH1 = [] then Inl IndexError else Inr n)))"


















subsection \<open>Some clustered tables\<close>

definition model :: "int \<Rightarrow> half \<Rightarrow> frame" where
  "model cl h =
     \<lparr>traj_of = ''run_1'', MC_frame_of = 0, rmf_frame_index_of = 0, rmf3_file_of = ''0.rmf3'',
      Total_score_of = 0, scores_of = [0], half_of = h, cluster_of = cl\<rparr>"





section \<open>The converged sample count in the words of the specification\<close>

text \<open>
  The test of the specification at a step, from the rows \<open>s\<close> to \<open>s+1\<close> of the two
  halves: for each half, the change of the mean of the minimum score is smaller than
  the standard deviation of the next row.
\<close>

definition spec_step_converged :: "stat_row \<Rightarrow> stat_row \<Rightarrow> stat_row \<Rightarrow> stat_row \<Rightarrow> bool" where
  "spec_step_converged a0 a1 b0 b1 \<longleftrightarrow>
     mean_of a0 - mean_of a1 < std_of a1 \<and> mean_of b0 - mean_of b1 < std_of b1"

text \<open>
  The converged sample count of the specification: the size of the first row that ends
  four consecutive steps which pass the test, and \<open>None\<close> when there is no such row.
  \<open>run\<close> counts the passing steps just before the rows at hand.
\<close>

fun spec_converged_size :: "stat_row list \<Rightarrow> stat_row list \<Rightarrow> nat \<Rightarrow> nat option" where
  "spec_converged_size (a0 # a1 # RH1) (b0 # b1 # RH2) run =
     (if spec_step_converged a0 a1 b0 b1
      then (if run + 1 = 4 then Some (size_of a1)
            else spec_converged_size (a1 # RH1) (b1 # RH2) (run + 1))
      else spec_converged_size (a1 # RH1) (b1 # RH2) 0)"
| "spec_converged_size RH1 RH2 run = None"

subsection \<open>Two halves of a cluster and the minima drawn from them\<close>

definition scored :: "half \<Rightarrow> real \<Rightarrow> frame" where
  "scored h x = (model 0 h)\<lparr>Total_score_of := x\<rparr>"

text \<open>
  Half A: one model of score 49 and 99 models of score 51. Half B: 43 models of score
  199, 43 of score 201, and one model of each of the scores 129, 131, 139, 141, ...,
  189, 191.
\<close>

definition slip_A :: "frame list" where
  "slip_A = scored HalfA 49 # replicate 99 (scored HalfA 51)"

definition slip_B :: "frame list" where
  "slip_B =
     map (scored HalfB) [129, 131, 139, 141, 149, 151, 159, 161, 169, 171, 179, 181, 189, 191]
     @ replicate 43 (scored HalfB 199) @ replicate 43 (scored HalfB 201)"

text \<open>
  Draws from these halves: at each size, ten of the twenty samples of half A have the
  minimum 49 and ten the minimum 51, so the mean of the minima is 50 and their standard
  deviation 1; at the size \<open>m\<close> (20, 30, ..., 90), ten of the samples of half B have the
  minimum \<open>219 - m\<close> and ten the minimum \<open>221 - m\<close>, so the mean is \<open>220 - m\<close> and the
  standard deviation 1.
\<close>

definition slip_draws :: draws where
  "slip_draws =
     \<lparr>minimum_stats_A = (\<lambda>cl m. (50, 1)), minimum_stats_B = (\<lambda>cl m. (220 - real m, 1)),
      sampled_rows = (\<lambda>cl. [0..<29999])\<rparr>"

section \<open>Properties of the half assignment\<close>

lemma slice_step2_nths: "slice_step2 xs = nths xs {i. even i}"
  by (induction xs rule: slice_step2.induct) (simp_all add: nths_Cons)

lemma slice_from1_nths: "slice_from1_step2 xs = nths xs {i. odd i}"
  by (cases xs) (simp_all add: slice_from1_step2_def slice_step2_nths nths_Cons)

lemma length_slice_step2: "length (slice_step2 xs) = (length xs + 1) div 2"
  by (induction xs rule: slice_step2.induct) simp_all

lemma nth_slice_step2: "2 * k < length xs \<Longrightarrow> slice_step2 xs ! k = xs ! (2 * k)"
proof (induction xs arbitrary: k rule: slice_step2.induct)
  case (3 x y xs)
  then show ?case by (cases k) simp_all
qed simp_all

lemma slice_step2_Cons: "slice_step2 (x # xs) = x # slice_step2 (drop 1 xs)"
  by (cases xs) simp_all

lemma mset_slices: "mset (slice_step2 xs) + mset (slice_from1_step2 xs) = mset xs"
  unfolding slice_from1_step2_def
proof (induction xs)
  case Nil
  show ?case by simp
next
  case (Cons x xs)
  have "mset (slice_step2 (x # xs)) + mset (slice_step2 (drop 1 (x # xs)))
        = add_mset x (mset (slice_step2 (drop 1 xs)) + mset (slice_step2 xs))"
    by (simp add: slice_step2_Cons del: slice_step2.simps)
  also have "\<dots> = add_mset x (mset xs)"
    using Cons.IH by (simp add: add.commute)
  finally show ?case by simp
qed

lemma set_slices: "set (slice_step2 xs) \<union> set (slice_from1_step2 xs) = set xs"
proof -
  have "set_mset (mset (slice_step2 xs) + mset (slice_from1_step2 xs)) = set_mset (mset xs)"
    by (simp only: mset_slices)
  then show ?thesis by simp
qed

lemma sort_cong: "mset xs = mset ys \<Longrightarrow> sort xs = sort (ys :: 'a :: linorder list)"
  by (simp add: properties_for_sort)

lemma distinct_slices:
  assumes "distinct xs"
  shows "set (slice_step2 xs) \<inter> set (slice_from1_step2 xs) = {}"
proof -
  have "distinct (slice_step2 xs @ slice_from1_step2 xs)"
    using assms mset_slices [of xs] mset_eq_imp_distinct_iff [of "slice_step2 xs @ slice_from1_step2 xs" xs]
    by simp
  then show ?thesis by simp
qed

text \<open>
  C1. The half assignment is a function of the sorted directory list: half A holds the
  entries of even sort rank and half B those of odd sort rank. Rank \<open>2k\<close> is entry \<open>k\<close>
  of half A and rank \<open>2k + 1\<close> is entry \<open>k\<close> of half B; four directories sorted as
  \<open>[d0, d1, d2, d3]\<close> give half A \<open>[d0, d2]\<close> and half B \<open>[d1, d3]\<close>; and any two
  arrangements of the same directories give the same halves and the same labels. The
  label of \<^verbatim>\<open>read_traj_info\<close> follows the halves: a directory of half A is labelled A,
  a directory of half B that is not also in half A is labelled B; so the directory of an
  even sort rank is labelled A and, when no directory is listed twice, the directory
  of an odd sort rank is labelled B.
\<close>

theorem half_assignment_by_sort_rank:
  "dir_halfA ds = nths (sort ds) {i. even i}
   \<and> dir_halfB ds = nths (sort ds) {i. odd i}
   \<and> (\<forall>k. 2 * k < length ds \<longrightarrow> dir_halfA ds ! k = sort ds ! (2 * k))
   \<and> (\<forall>k. 2 * k + 1 < length ds \<longrightarrow> dir_halfB ds ! k = sort ds ! (2 * k + 1))
   \<and> (sort ds = [d0, d1, d2, d3] \<longrightarrow> dir_halfA ds = [d0, d2] \<and> dir_halfB ds = [d1, d3])
   \<and> (mset ds' = mset ds \<longrightarrow>
        dir_halfA ds' = dir_halfA ds \<and> dir_halfB ds' = dir_halfB ds
        \<and> half_label ds' = half_label ds)
   \<and> (\<forall>d. d \<in> set (dir_halfA ds) \<longrightarrow> half_label ds d = HalfA)
   \<and> (\<forall>d. d \<in> set (dir_halfB ds) \<and> d \<notin> set (dir_halfA ds) \<longrightarrow> half_label ds d = HalfB)
   \<and> (\<forall>i. i < length ds \<and> even i \<longrightarrow> half_label ds (sort ds ! i) = HalfA)
   \<and> (distinct ds \<longrightarrow> (\<forall>i. i < length ds \<and> odd i \<longrightarrow> half_label ds (sort ds ! i) = HalfB))"
proof -
  have a: "dir_halfA ds = nths (sort ds) {i. even i}"
    by (simp add: dir_halfA_def slice_step2_nths)
  have b: "dir_halfB ds = nths (sort ds) {i. odd i}"
    by (simp add: dir_halfB_def slice_from1_nths)
  have c: "\<forall>k. 2 * k < length ds \<longrightarrow> dir_halfA ds ! k = sort ds ! (2 * k)"
    by (simp add: dir_halfA_def nth_slice_step2)
  have d: "\<forall>k. 2 * k + 1 < length ds \<longrightarrow> dir_halfB ds ! k = sort ds ! (2 * k + 1)"
    by (simp add: dir_halfB_def slice_from1_step2_def nth_slice_step2)
  have e: "sort ds = [d0, d1, d2, d3] \<longrightarrow> dir_halfA ds = [d0, d2] \<and> dir_halfB ds = [d1, d3]"
    by (simp add: dir_halfA_def dir_halfB_def slice_from1_step2_def)
  have f: "mset ds' = mset ds \<longrightarrow>
        dir_halfA ds' = dir_halfA ds \<and> dir_halfB ds' = dir_halfB ds
        \<and> half_label ds' = half_label ds"
  proof
    assume "mset ds' = mset ds"
    then have "sort ds' = sort ds" by (rule sort_cong)
    then have "dir_halfA ds' = dir_halfA ds" "dir_halfB ds' = dir_halfB ds"
      by (simp_all add: dir_halfA_def dir_halfB_def)
    then show "dir_halfA ds' = dir_halfA ds \<and> dir_halfB ds' = dir_halfB ds
        \<and> half_label ds' = half_label ds"
      by (simp add: half_label_def fun_eq_iff)
  qed
  have g: "\<forall>d. d \<in> set (dir_halfA ds) \<longrightarrow> half_label ds d = HalfA"
    by (simp add: half_label_def)
  have h: "\<forall>d. d \<in> set (dir_halfB ds) \<and> d \<notin> set (dir_halfA ds) \<longrightarrow> half_label ds d = HalfB"
    by (simp add: half_label_def)
  have inA: "\<And>i. i < length ds \<Longrightarrow> even i \<Longrightarrow> sort ds ! i \<in> set (dir_halfA ds)"
    unfolding a by (auto simp: set_nths)
  have inB: "\<And>i. i < length ds \<Longrightarrow> odd i \<Longrightarrow> sort ds ! i \<in> set (dir_halfB ds)"
    unfolding b by (auto simp: set_nths)
  have i: "\<forall>i. i < length ds \<and> even i \<longrightarrow> half_label ds (sort ds ! i) = HalfA"
    using inA g by blast
  have j: "distinct ds \<longrightarrow> (\<forall>i. i < length ds \<and> odd i \<longrightarrow> half_label ds (sort ds ! i) = HalfB)"
  proof (intro impI allI)
    fix i assume dist: "distinct ds" and i: "i < length ds \<and> odd i"
    have "set (dir_halfA ds) \<inter> set (dir_halfB ds) = {}"
      using distinct_slices [of "sort ds"] dist by (simp add: dir_halfA_def dir_halfB_def)
    with inB [of i] i have "sort ds ! i \<in> set (dir_halfB ds) \<and> sort ds ! i \<notin> set (dir_halfA ds)"
      by blast
    with h show "half_label ds (sort ds ! i) = HalfB" by blast
  qed
  from a b c d e f g h i j show ?thesis by blast
qed

theorem half_assignment_by_sort_rank_witness:
  "sort [''run_3/'', ''run_1/'', ''run_4/'', ''run_2/''] = [''run_1/'', ''run_2/'', ''run_3/'', ''run_4/'']
   \<and> mset [''run_1/'', ''run_4/'', ''run_2/'', ''run_3/''] = mset [''run_3/'', ''run_1/'', ''run_4/'', ''run_2/'']
   \<and> 2 * 1 < length [''run_3/'', ''run_1/'', ''run_4/'', ''run_2/'']
   \<and> distinct [''run_3/'', ''run_1/'', ''run_4/'', ''run_2/'']
   \<and> dir_halfA [''run_3/'', ''run_1/'', ''run_4/'', ''run_2/''] = [''run_1/'', ''run_3/'']
   \<and> dir_halfB [''run_3/'', ''run_1/'', ''run_4/'', ''run_2/''] = [''run_2/'', ''run_4/'']
   \<and> dir_halfA [''run_1/'', ''run_4/'', ''run_2/'', ''run_3/''] = [''run_1/'', ''run_3/'']
   \<and> half_label [''run_3/'', ''run_1/'', ''run_4/'', ''run_2/''] ''run_3/'' = HalfA
   \<and> half_label [''run_3/'', ''run_1/'', ''run_4/'', ''run_2/''] ''run_4/'' = HalfB
   \<and> half_label [''run_3/'', ''run_1/'', ''run_4/'', ''run_2/'']
        (sort [''run_3/'', ''run_1/'', ''run_4/'', ''run_2/''] ! 0) = HalfA
   \<and> half_label [''run_3/'', ''run_1/'', ''run_4/'', ''run_2/'']
        (sort [''run_3/'', ''run_1/'', ''run_4/'', ''run_2/''] ! 1) = HalfB"
proof -
  let ?ds = "[''run_3/'', ''run_1/'', ''run_4/'', ''run_2/'']"
  have s: "sort ?ds = [''run_1/'', ''run_2/'', ''run_3/'', ''run_4/'']"
    by code_simp
  have m: "mset [''run_1/'', ''run_4/'', ''run_2/'', ''run_3/''] = mset ?ds"
    by simp
  have di: "distinct ?ds" by simp
  note t = half_assignment_by_sort_rank [of ?ds
      "''run_1/''" "''run_2/''" "''run_3/''" "''run_4/''" "[''run_1/'', ''run_4/'', ''run_2/'', ''run_3/'']"]
  from t s have ab: "dir_halfA ?ds = [''run_1/'', ''run_3/''] \<and> dir_halfB ?ds = [''run_2/'', ''run_4/'']"
    by blast
  from t m have p: "dir_halfA [''run_1/'', ''run_4/'', ''run_2/'', ''run_3/''] = dir_halfA ?ds"
    by blast
  have inA: "''run_3/'' \<in> set (dir_halfA ?ds)" using ab by simp
  have inB: "''run_4/'' \<in> set (dir_halfB ?ds) \<and> ''run_4/'' \<notin> set (dir_halfA ?ds)" using ab by simp
  from t inA have l1: "half_label ?ds ''run_3/'' = HalfA" by blast
  from t inB have l2: "half_label ?ds ''run_4/'' = HalfB" by blast
  have r0: "0 < length ?ds \<and> even (0::nat)" by simp
  have r1: "1 < length ?ds \<and> odd (1::nat)" by simp
  from t r0 have l3: "half_label ?ds (sort ?ds ! 0) = HalfA" by blast
  from t di r1 have l4: "half_label ?ds (sort ?ds ! 1) = HalfB" by blast
  have len: "2 * 1 < length ?ds" by simp
  from s m len di ab p l1 l2 l3 l4 show ?thesis by (simp only: simp_thms)
qed

text \<open>
  C10. The two halves together hold every input directory exactly as often as the input
  does, so a directory taken from the input list is in half A or in half B and the
  third branch of the label, the integer 0, is never taken for it. When the directories
  are distinct the halves are disjoint.
\<close>

theorem every_directory_gets_a_half:
  "mset (dir_halfA ds) + mset (dir_halfB ds) = mset ds
   \<and> set (dir_halfA ds) \<union> set (dir_halfB ds) = set ds
   \<and> (distinct ds \<longrightarrow> set (dir_halfA ds) \<inter> set (dir_halfB ds) = {})
   \<and> (\<forall>d \<in> set ds. half_label ds d = HalfA \<or> half_label ds d = HalfB)"
proof -
  have m: "mset (dir_halfA ds) + mset (dir_halfB ds) = mset ds"
    using mset_slices [of "sort ds"] by (simp add: dir_halfA_def dir_halfB_def)
  have u: "set (dir_halfA ds) \<union> set (dir_halfB ds) = set ds"
    using set_slices [of "sort ds"] by (simp add: dir_halfA_def dir_halfB_def)
  have i: "distinct ds \<longrightarrow> set (dir_halfA ds) \<inter> set (dir_halfB ds) = {}"
    using distinct_slices [of "sort ds"] by (simp add: dir_halfA_def dir_halfB_def)
  have l: "\<forall>d \<in> set ds. half_label ds d = HalfA \<or> half_label ds d = HalfB"
    using u by (auto simp: half_label_def)
  from m u i l show ?thesis by blast
qed

theorem every_directory_gets_a_half_witness:
  "distinct [''run_2/'', ''run_1/'', ''run_3/'']
   \<and> ''run_3/'' \<in> set [''run_2/'', ''run_1/'', ''run_3/'']
   \<and> set (dir_halfA [''run_2/'', ''run_1/'', ''run_3/''])
       \<inter> set (dir_halfB [''run_2/'', ''run_1/'', ''run_3/'']) = {}
   \<and> (half_label [''run_2/'', ''run_1/'', ''run_3/''] ''run_3/'' = HalfA
       \<or> half_label [''run_2/'', ''run_1/'', ''run_3/''] ''run_3/'' = HalfB)"
proof -
  have d: "distinct [''run_2/'', ''run_1/'', ''run_3/'']" by simp
  have e: "''run_3/'' \<in> set [''run_2/'', ''run_1/'', ''run_3/'']" by simp
  note t = every_directory_gets_a_half [of "[''run_2/'', ''run_1/'', ''run_3/'']"]
  from t d have i: "set (dir_halfA [''run_2/'', ''run_1/'', ''run_3/''])
       \<inter> set (dir_halfB [''run_2/'', ''run_1/'', ''run_3/'']) = {}"
    by blast
  from t e have "half_label [''run_2/'', ''run_1/'', ''run_3/''] ''run_3/'' = HalfA
       \<or> half_label [''run_2/'', ''run_1/'', ''run_3/''] ''run_3/'' = HalfB"
    by blast
  with d e i show ?thesis by blast
qed

section \<open>Properties of the loop over the stat files\<close>

lemma append_accum_empty [simp]: "append_accum acc empty_accum = acc" "append_accum empty_accum acc = acc"
  by (simp_all add: append_accum_def empty_accum_def)

lemma append_accum_assoc: "append_accum (append_accum a b) c = append_accum a (append_accum b c)"
  by (simp add: append_accum_def)

lemma append_accum_sel [simp]:
  "S_scores (append_accum a b) = S_scores a @ S_scores b"
  "S_dist (append_accum a b) = S_dist a @ S_dist b"
  "P_satif (append_accum a b) = P_satif a @ P_satif b"
  "warnings (append_accum a b) = warnings a @ warnings b"
  by (simp_all add: append_accum_def)

lemma add_row_shift:
  "add_row a t s q d acc =
     (case add_row a t s q d empty_accum of Inl e \<Rightarrow> Inl e | Inr dd \<Rightarrow> Inr (append_accum acc dd))"
  by (simp add: add_row_def append_accum_def empty_accum_def Let_def split: sum.splits)

lemma add_row_scores:
  "add_row a t s q d empty_accum = Inr dd \<Longrightarrow>
     build_row a t q d = Inr (hd (S_scores dd)) \<and> S_scores dd = [hd (S_scores dd)] \<and> warnings dd = []"
  by (auto simp: add_row_def empty_accum_def Let_def split: sum.splits if_splits)

lemma read_lines_shift:
  "read_lines a t s q n ls acc =
     (case read_lines a t s q n ls empty_accum of Inl e \<Rightarrow> Inl e | Inr dd \<Rightarrow> Inr (append_accum acc dd))"
proof (induction ls arbitrary: n acc)
  case Nil
  show ?case by simp
next
  case (Cons l ls)
  show ?case
  proof (cases l)
    case NotValid
    then show ?thesis by (simp add: append_accum_def empty_accum_def)
  next
    case (Evaluated d)
    show ?thesis
    proof (cases "n = 0")
      case True
      with Evaluated Cons.IH [of 1 acc] show ?thesis by simp
    next
      case False
      show ?thesis
      proof (cases "add_row a t s q d empty_accum")
        case (Inl e)
        with Evaluated False add_row_shift [of a t s q d acc] show ?thesis by simp
      next
        case (Inr dd)
        then have 1: "add_row a t s q d acc = Inr (append_accum acc dd)"
          using add_row_shift [of a t s q d acc] by simp
        show ?thesis
          using Evaluated False Inr 1
            Cons.IH [of "n + 1" "append_accum acc dd"] Cons.IH [of "n + 1" dd]
          by (simp add: append_accum_assoc split: sum.splits)
      qed
    qed
  qed
qed


lemma read_lines_data:
  "read_lines a t s q n ls empty_accum = Inr dd \<Longrightarrow> 0 < n \<Longrightarrow>
     map Inr (S_scores dd) = map (build_row a t q) (records_of (takeWhile is_valid ls))
     \<and> warnings dd = (if \<forall>l \<in> set ls. is_valid l then []
                       else [n + length (takeWhile is_valid ls) + 1])"
proof (induction ls arbitrary: n dd)
  case Nil
  then show ?case by (auto simp: empty_accum_def)
next
  case (Cons l ls)
  show ?case
  proof (cases l)
    case NotValid
    with Cons.prems show ?thesis by (auto simp: empty_accum_def)
  next
    case (Evaluated d)
    from Cons.prems Evaluated obtain r where r: "add_row a t s q d empty_accum = Inr r"
      and rest: "read_lines a t s q (n + 1) ls r = Inr dd"
      by (auto split: sum.splits)
    from rest read_lines_shift [of a t s q "n + 1" ls r]
    obtain d2 where d2: "read_lines a t s q (n + 1) ls empty_accum = Inr d2"
      and dd: "dd = append_accum r d2"
      by (auto split: sum.splits)
    note ih = Cons.IH [OF d2]
    note row = add_row_scores [OF r]
    have "map Inr (S_scores dd) = build_row a t q d # map Inr (S_scores d2)"
      using dd row by (metis append_accum_sel(1) append_Cons append_Nil list.simps(9))
    moreover have "warnings dd = warnings d2"
      using dd row by simp
    ultimately show ?thesis
      using ih Evaluated by simp
  qed
qed

lemma read_shard_data:
  assumes "read_lines a t s q 0 file empty_accum = Inr dd"
  shows "map Inr (S_scores dd) = map (build_row a t q) (data_records file)
         \<and> warnings dd = shard_warning file"
proof (cases "file")
  case Nil
  with assms show ?thesis by (auto simp: data_records_def shard_warning_def empty_accum_def)
next
  case (Cons l ls)
  show ?thesis
  proof (cases l)
    case NotValid
    with Cons assms show ?thesis
      by (auto simp: data_records_def shard_warning_def empty_accum_def)
  next
    case (Evaluated d)
    with Cons assms have "read_lines a t s q 1 ls empty_accum = Inr dd" by simp
    from read_lines_data [OF this] Cons Evaluated show ?thesis
      by (simp add: data_records_def shard_warning_def)
  qed
qed

lemma read_files_split:
  "read_files a t s q files acc = Inr acc' \<Longrightarrow>
     \<exists>ds. length ds = length files
        \<and> (\<forall>i < length files. read_lines a t s q 0 (files ! i) empty_accum = Inr (ds ! i))
        \<and> acc' = foldl append_accum acc ds"
proof (induction files arbitrary: acc)
  case Nil
  then show ?case by simp
next
  case (Cons f fs)
  from Cons.prems obtain r where r: "read_lines a t s q 0 f acc = Inr r"
    and rest: "read_files a t s q fs r = Inr acc'"
    by (auto split: sum.splits)
  from r read_lines_shift [of a t s q 0 f acc]
  obtain d where d: "read_lines a t s q 0 f empty_accum = Inr d" and rd: "r = append_accum acc d"
    by (auto split: sum.splits)
  from Cons.IH [OF rest] obtain ds where ds: "length ds = length fs"
    "\<forall>i < length fs. read_lines a t s q 0 (fs ! i) empty_accum = Inr (ds ! i)"
    "acc' = foldl append_accum r ds"
    by blast
  have "\<forall>i < length (f # fs). read_lines a t s q 0 ((f # fs) ! i) empty_accum = Inr ((d # ds) ! i)"
    using d ds(2) by (auto simp: nth_Cons split: nat.splits)
  moreover have "acc' = foldl append_accum acc (d # ds)" using ds(3) rd by simp
  ultimately show ?case using ds(1)
    by (intro exI [of _ "d # ds"]) simp
qed

lemma foldl_append_accum_sel:
  "S_scores (foldl append_accum acc ds) = S_scores acc @ concat (map S_scores ds)"
  "S_dist (foldl append_accum acc ds) = S_dist acc @ concat (map S_dist ds)"
  "P_satif (foldl append_accum acc ds) = P_satif acc @ concat (map P_satif ds)"
  "warnings (foldl append_accum acc ds) = warnings acc @ concat (map warnings ds)"
  by (induction ds arbitrary: acc) simp_all

text \<open>
  C9. When the loop over the files returns, the rows it has collected are the rows of
  \<open>data_records\<close> of each file, file after file: of each file the lines after the
  first and before the first line that does not parse. So the first line of a file gives
  no row, no line at or after a line that does not parse gives one, and the files after
  such a file are read in the same way. A warning with the number of the line is reported
  for each file that has such a line.
\<close>

theorem first_line_is_header_and_corrupt_line_ends_shard:
  assumes "read_files a trj satif_fields query_rmf_file files empty_accum = Inr acc"
  shows "map Inr (S_scores acc) = map (build_row a trj query_rmf_file) (concat (map data_records files))
         \<and> warnings acc = concat (map shard_warning files)"
proof -
  from read_files_split [OF assms] obtain ds where ds: "length ds = length files"
    "\<forall>i < length files. read_lines a trj satif_fields query_rmf_file 0 (files ! i) empty_accum = Inr (ds ! i)"
    "acc = foldl append_accum empty_accum ds"
    by blast
  have each: "\<forall>i < length files.
      map Inr (S_scores (ds ! i)) = map (build_row a trj query_rmf_file) (data_records (files ! i))
      \<and> warnings (ds ! i) = shard_warning (files ! i)"
    using ds(2) read_shard_data by blast
  have 1: "map (map Inr \<circ> S_scores) ds = map (map (build_row a trj query_rmf_file) \<circ> data_records) files"
    using ds(1) each by (intro nth_equalityI) simp_all
  have 2: "map warnings ds = map shard_warning files"
    using ds(1) each by (intro nth_equalityI) simp_all
  have "map Inr (S_scores acc) = concat (map (map Inr \<circ> S_scores) ds)"
    using ds(3) by (simp add: foldl_append_accum_sel empty_accum_def map_concat)
  also have "\<dots> = concat (map (map (build_row a trj query_rmf_file) \<circ> data_records) files)"
    using 1 by simp
  also have "\<dots> = map (build_row a trj query_rmf_file) (concat (map data_records files))"
    by (simp add: map_concat)
  finally have A: "map Inr (S_scores acc) = map (build_row a trj query_rmf_file) (concat (map data_records files))" .
  have B: "warnings acc = concat (map shard_warning files)"
    using ds(3) 2 by (simp add: foldl_append_accum_sel empty_accum_def)
  from A B show ?thesis by blast
qed

theorem first_line_is_header_and_corrupt_line_ends_shard_witness:
  "read_files init_analysis (Text ''run_1'') [] [9]
      [[header_line, data_line 20 7, NotValid, data_line 30 5], [header_line, data_line 10 9]]
      empty_accum
    = Inr \<lparr>S_scores = [row_of [20, 0, 7], row_of [10, 0, 9]], S_dist = [], P_satif = [],
           warnings = [3]\<rparr>
   \<and> concat (map data_records
         [[header_line, data_line 20 7, NotValid, data_line 30 5], [header_line, data_line 10 9]])
       = records_of [data_line 20 7, data_line 10 9]
   \<and> concat (map shard_warning
         [[header_line, data_line 20 7, NotValid, data_line 30 5], [header_line, data_line 10 9]])
       = [3]"
proof -
  have h: "read_files init_analysis (Text ''run_1'') [] [9]
      [[header_line, data_line 20 7, NotValid, data_line 30 5], [header_line, data_line 10 9]]
      empty_accum
    = Inr \<lparr>S_scores = [row_of [20, 0, 7], row_of [10, 0, 9]], S_dist = [], P_satif = [],
           warnings = [3]\<rparr>"
    by (simp add: init_analysis_def header_line_def data_line_def row_of_def empty_accum_def
        add_row_def build_row_def all_fields_def float_py_def)
  have r: "concat (map data_records
         [[header_line, data_line 20 7, NotValid, data_line 30 5], [header_line, data_line 10 9]])
       = records_of [data_line 20 7, data_line 10 9]"
    by (simp add: data_records_def header_line_def data_line_def)
  from first_line_is_header_and_corrupt_line_ends_shard [OF h]
  have "[3] = concat (map shard_warning
         [[header_line, data_line 20 7, NotValid, data_line 30 5], [header_line, data_line 10 9]])"
    by simp
  with h r show ?thesis by simp
qed

section \<open>The order of the rows of the score table\<close>

lemma map_sort_key: "map f (sort_key f xs) = sort (map f xs)"
proof -
  have "sort (map f xs) = map f (sort_key f xs)"
  proof (rule properties_for_sort)
    show "mset (map f (sort_key f xs)) = mset (map f xs)" by simp
    show "sorted (map f (sort_key f xs))" by (rule sorted_sort_key)
  qed
  then show ?thesis by simp
qed

lemma MC_frame_assign:
  assumes "length col = length (rows D)" and "columns D \<noteq> []" and "hd (columns D) \<noteq> name"
    and "\<forall>r \<in> set (rows D). length (vals r) = length (columns D)"
  shows "MC_frame (assign D name col) = MC_frame D
         \<and> columns (assign D name col) \<noteq> []
         \<and> hd (columns (assign D name col)) = hd (columns D)
         \<and> (\<forall>r \<in> set (rows (assign D name col)). length (vals r) = length (columns (assign D name col)))
         \<and> length (rows (assign D name col)) = length (rows D)"
proof -
  have i0: "index_of name (columns D) \<noteq> 0"
    using assms(2,3) by (cases "columns D") auto
  have nonempty: "\<forall>r \<in> set (rows D). vals r \<noteq> []"
    using assms(2,4) by auto
  have key1: "\<And>r v. r \<in> set (rows D) \<Longrightarrow>
      frame_key (r\<lparr>vals := (vals r)[index_of name (columns D) := v]\<rparr>) = frame_key r"
    using i0 nonempty by (simp add: frame_key_def hd_conv_nth)
  have key2: "\<And>r v. r \<in> set (rows D) \<Longrightarrow> frame_key (r\<lparr>vals := vals r @ [v]\<rparr>) = frame_key r"
    using nonempty by (simp add: frame_key_def)
  have fst_zip: "map fst (zip (rows D) col) = rows D"
    using assms(1) by (simp add: map_fst_zip)
  have in_rows: "\<And>rv. rv \<in> set (zip (rows D) col) \<Longrightarrow> fst rv \<in> set (rows D)"
    by (metis in_set_zipE prod.collapse)
  show ?thesis
  proof (cases "name \<in> set (columns D)")
    case True
    have "map frame_key (rows (assign D name col)) = map (frame_key \<circ> fst) (zip (rows D) col)"
      using True key1 in_rows by (simp add: assign_def)
    also have "\<dots> = map frame_key (rows D)"
      using fst_zip by (metis map_map)
    finally have "MC_frame (assign D name col) = MC_frame D" by (simp add: MC_frame_def)
    moreover have "\<forall>r \<in> set (rows (assign D name col)). length (vals r) = length (columns (assign D name col))"
      using True assms(4) in_rows by (auto simp: assign_def)
    ultimately show ?thesis using True assms(1,2) by (simp add: assign_def)
  next
    case False
    have "map frame_key (rows (assign D name col)) = map (frame_key \<circ> fst) (zip (rows D) col)"
      using False key2 in_rows by (simp add: assign_def)
    also have "\<dots> = map frame_key (rows D)"
      using fst_zip by (metis map_map)
    finally have "MC_frame (assign D name col) = MC_frame D" by (simp add: MC_frame_def)
    moreover have "\<forall>r \<in> set (rows (assign D name col)). length (vals r) = length (columns (assign D name col))"
      using False assms(4) in_rows by (auto simp: assign_def)
    ultimately show ?thesis using False assms(1,2) by (simp add: assign_def)
  qed
qed

lemma sum_block_frames:
  assumes "well_formed D" and "short @ ''_sum'' \<noteq> ''MC_frame''"
  shows "well_formed (sum_block c short D) \<and> MC_frame (sum_block c short D) = MC_frame D"
proof (cases c)
  case False
  with assms show ?thesis by (simp add: sum_block_def)
next
  case True
  have "length (add_restraint_type D (short @ ''_'')) = length (rows D)"
    by (simp add: add_restraint_type_def)
  from MC_frame_assign [OF this, of "short @ ''_sum''"] assms True
  show ?thesis by (simp add: sum_block_def well_formed_def)
qed

lemma add_sums_frames:
  assumes "well_formed D"
  shows "well_formed (add_sums a D) \<and> MC_frame (add_sums a D) = MC_frame D"
  unfolding add_sums_def Let_def
  using assms by (simp add: sum_block_frames)


lemma finish_stats_score: "finish_stats a s acc D = Inr st \<Longrightarrow> score_table st = D"
  by (auto simp: finish_stats_def split: sum.splits if_splits prod.splits)

lemma sort_by_column0_ok: "(\<exists>x. sort_by_column0 S = Inr x) \<longleftrightarrow> S \<noteq> []"
  by (simp add: sort_by_column0_def)

lemma sort_key_eq_Nil: "sort_key f xs = [] \<longleftrightarrow> xs = []"
  by (metis length_sort length_0_conv)

lemma finish_stats_ok_iff:
  "(\<exists>st. finish_stats a s acc D = Inr st) \<longleftrightarrow>
     (XLs_restraint a \<longrightarrow> S_dist acc \<noteq> [] \<and> (\<forall>r \<in> set (S_dist acc). length r = Suc (length (XLs_names a))))
     \<and> (atomic_XLs_restraint a \<longrightarrow>
          S_dist acc \<noteq> [] \<and> (\<forall>r \<in> set (S_dist acc). length r = Suc (length (atomic_XLs_names a))))
     \<and> (s \<noteq> [] \<longrightarrow> P_satif acc \<noteq> [])"
  by (cases "XLs_restraint a"; cases "atomic_XLs_restraint a"; cases "s = []";
      cases "S_dist acc = []"; cases "P_satif acc = []")
     (auto simp: finish_stats_def sort_by_column0_def DistFrame_def sort_key_eq_Nil)


lemma read_files_all:
  "(\<forall>f \<in> set files. read_lines a t s q 0 f empty_accum = Inr (dl f)) \<Longrightarrow>
     read_files a t s q files acc = Inr (foldl append_accum acc (map dl files))"
proof (induction files arbitrary: acc)
  case Nil
  show ?case by simp
next
  case (Cons f fs)
  have "read_lines a t s q 0 f acc = Inr (append_accum acc (dl f))"
    using Cons.prems read_lines_shift [of a t s q 0 f acc] by simp
  then show ?case using Cons by simp
qed

lemma read_files_each:
  assumes "read_files a t s q files acc = Inr acc'"
  shows "\<forall>f \<in> set files. \<exists>d. read_lines a t s q 0 f empty_accum = Inr d"
proof
  fix f assume "f \<in> set files"
  then obtain i where "i < length files" "files ! i = f" by (auto simp: in_set_conv_nth)
  with read_files_split [OF assms] show "\<exists>d. read_lines a t s q 0 f empty_accum = Inr d"
    by blast
qed

lemma mset_concat_map_cong:
  assumes "mset xs = mset ys"
  shows "mset (concat (map g xs)) = mset (concat (map g ys))"
proof -
  have "\<And>zs. mset (concat (map g zs)) = sum_mset (image_mset (mset \<circ> g) (mset zs))"
    by (simp add: mset_concat sum_mset_sum_list [symmetric] del: sum_mset_sum_list)
  then show ?thesis using assms by simp
qed

lemma read_files_perm:
  assumes "read_files a t s q files empty_accum = Inr acc" and "mset files' = mset files"
  shows "\<exists>acc'. read_files a t s q files' empty_accum = Inr acc'
           \<and> mset (S_scores acc') = mset (S_scores acc)
           \<and> mset (S_dist acc') = mset (S_dist acc)
           \<and> mset (P_satif acc') = mset (P_satif acc)"
proof -
  define dl where "dl f = projr (read_lines a t s q 0 f empty_accum)" for f
  have each: "\<forall>f \<in> set files. read_lines a t s q 0 f empty_accum = Inr (dl f)"
    using read_files_each [OF assms(1)] by (auto simp: dl_def)
  have "set files' = set files" using assms(2) by (rule mset_eq_setD)
  with each have each': "\<forall>f \<in> set files'. read_lines a t s q 0 f empty_accum = Inr (dl f)"
    by simp
  have 1: "acc = foldl append_accum empty_accum (map dl files)"
    using read_files_all [OF each, of empty_accum] assms(1) by simp
  have 2: "read_files a t s q files' empty_accum = Inr (foldl append_accum empty_accum (map dl files'))"
    by (rule read_files_all [OF each'])
  let ?acc' = "foldl append_accum empty_accum (map dl files')"
  have "mset (S_scores ?acc') = mset (S_scores acc)"
    using mset_concat_map_cong [OF assms(2), of "S_scores \<circ> dl"]
    by (simp add: 1 foldl_append_accum_sel empty_accum_def)
  moreover have "mset (S_dist ?acc') = mset (S_dist acc)"
    using mset_concat_map_cong [OF assms(2), of "S_dist \<circ> dl"]
    by (simp add: 1 foldl_append_accum_sel empty_accum_def)
  moreover have "mset (P_satif ?acc') = mset (P_satif acc)"
    using mset_concat_map_cong [OF assms(2), of "P_satif \<circ> dl"]
    by (simp add: 1 foldl_append_accum_sel empty_accum_def)
  ultimately show ?thesis using 2 by blast
qed

lemma DataFrame_ok:
  "DataFrame S names = Inr D \<Longrightarrow>
     D = \<lparr>columns = names, rows = S\<rparr> \<and> (\<forall>r \<in> set S. length (vals r) = length names)"
  by (auto simp: DataFrame_def split: if_splits)

lemma read_stats_detailed_frames:
  assumes "read_stats_detailed a t files s q = Inr st"
  shows "\<exists>acc. read_files a t s q files empty_accum = Inr acc
           \<and> (\<forall>r \<in> set (S_scores acc). length (vals r) = length (restraint_names a))
           \<and> (\<exists>st'. finish_stats a s acc (score_table st) = Inr st')
           \<and> MC_frame (score_table st) = sort (map frame_key (S_scores acc))"
proof -
  from assms obtain acc D where acc: "read_files a t s q files empty_accum = Inr acc"
    and D: "DataFrame (sort_by_frame (S_scores acc)) (restraint_names a) = Inr D"
    and fin: "finish_stats a s acc (add_sums a D) = Inr st"
    by (auto simp: read_stats_detailed_def split: sum.splits)
  note d = DataFrame_ok [OF D]
  have len: "\<forall>r \<in> set (S_scores acc). length (vals r) = length (restraint_names a)"
    using d by (simp add: sort_by_frame_def)
  have wf: "well_formed D"
    using d by (simp add: well_formed_def restraint_names_def)
  have "MC_frame (score_table st) = MC_frame D"
    using finish_stats_score [OF fin] add_sums_frames [OF wf, of a] by simp
  also have "\<dots> = sort (map frame_key (S_scores acc))"
    using d by (simp add: MC_frame_def sort_by_frame_def map_sort_key)
  finally have "MC_frame (score_table st) = sort (map frame_key (S_scores acc))" .
  moreover have "\<exists>st'. finish_stats a s acc (score_table st) = Inr st'"
    using fin finish_stats_ok_iff [of a s acc "add_sums a D"] finish_stats_ok_iff [of a s acc "score_table st"]
    by blast
  ultimately show ?thesis using acc len by blast
qed

lemma read_stats_detailed_perm:
  assumes "read_stats_detailed a t files s q = Inr st" and "mset files' = mset files"
  shows "\<exists>st'. read_stats_detailed a t files' s q = Inr st'
           \<and> MC_frame (score_table st') = MC_frame (score_table st)"
proof -
  from read_stats_detailed_frames [OF assms(1)] obtain acc where
    acc: "read_files a t s q files empty_accum = Inr acc"
    and len: "\<forall>r \<in> set (S_scores acc). length (vals r) = length (restraint_names a)"
    and fin: "\<exists>st'. finish_stats a s acc (score_table st) = Inr st'"
    and fr: "MC_frame (score_table st) = sort (map frame_key (S_scores acc))"
    by blast
  from read_files_perm [OF acc assms(2)] obtain acc' where
    acc': "read_files a t s q files' empty_accum = Inr acc'"
    and m1: "mset (S_scores acc') = mset (S_scores acc)"
    and m2: "mset (S_dist acc') = mset (S_dist acc)"
    and m3: "mset (P_satif acc') = mset (P_satif acc)"
    by blast
  have s1: "set (S_scores acc') = set (S_scores acc)" using m1 by (rule mset_eq_setD)
  have s2: "set (S_dist acc') = set (S_dist acc)" using m2 by (rule mset_eq_setD)
  have s3: "set (P_satif acc') = set (P_satif acc)" using m3 by (rule mset_eq_setD)
  have e2: "S_dist acc' = [] \<longleftrightarrow> S_dist acc = []" using s2 by (metis set_empty)
  have e3: "P_satif acc' = [] \<longleftrightarrow> P_satif acc = []" using s3 by (metis set_empty)
  let ?D = "\<lparr>columns = restraint_names a, rows = sort_by_frame (S_scores acc')\<rparr>"
  have D: "DataFrame (sort_by_frame (S_scores acc')) (restraint_names a) = Inr ?D"
    using len s1 by (simp add: DataFrame_def sort_by_frame_def)
  have "\<exists>st'. finish_stats a s acc' (add_sums a ?D) = Inr st'"
    using fin s2 e2 e3
    unfolding finish_stats_ok_iff by simp
  then obtain st' where st': "finish_stats a s acc' (add_sums a ?D) = Inr st'" by blast
  then have r: "read_stats_detailed a t files' s q = Inr st'"
    using acc' D by (simp add: read_stats_detailed_def)
  from read_stats_detailed_frames [OF r] acc' have
    "MC_frame (score_table st') = sort (map frame_key (S_scores acc'))" by auto
  also have "\<dots> = sort (map frame_key (S_scores acc))"
    using m1 by (intro sort_cong) simp
  finally show ?thesis using r fr by simp
qed


text \<open>
  C3, as the code has it. The rows of all files are sorted by the frame counter before
  the table is built, so the frame column of the table is ascending, and it is the same
  for every order of the files. The sort keeps rows of equal frame counter, so the column
  is strictly ascending when no frame counter occurs twice, and only then.
\<close>

theorem frame_column_ascending:
  assumes "read_stats_detailed a trj stat_files satif_fields query_rmf_file = Inr st"
  shows "sorted (MC_frame (score_table st))
     \<and> (distinct (MC_frame (score_table st)) \<longrightarrow> sorted_wrt (<) (MC_frame (score_table st)))
     \<and> (\<forall>files'. mset files' = mset stat_files \<longrightarrow>
           frame_column_of (read_stats_detailed a trj files' satif_fields query_rmf_file)
             = Some (MC_frame (score_table st)))"
proof -
  from read_stats_detailed_frames [OF assms]
  have s: "sorted (MC_frame (score_table st))" by auto
  then have d: "distinct (MC_frame (score_table st)) \<longrightarrow> sorted_wrt (<) (MC_frame (score_table st))"
    by (simp add: strict_sorted_iff)
  have p: "\<forall>files'. mset files' = mset stat_files \<longrightarrow>
           frame_column_of (read_stats_detailed a trj files' satif_fields query_rmf_file)
             = Some (MC_frame (score_table st))"
  proof (intro allI impI)
    fix files' assume "mset files' = mset stat_files"
    from read_stats_detailed_perm [OF assms this]
    show "frame_column_of (read_stats_detailed a trj files' satif_fields query_rmf_file)
             = Some (MC_frame (score_table st))"
      by (auto simp: frame_column_of_def)
  qed
  from s d p show ?thesis by blast
qed

lemmas parser_example_defs =
  init_analysis_def header_line_def data_line_def row_of_def empty_accum_def add_row_def
  build_row_def all_fields_def float_py_def read_stats_detailed_def sort_by_frame_def frame_key_def
  DataFrame_def restraint_names_def add_sums_def sum_block_def finish_stats_def

theorem frame_column_ascending_witness:
  "read_stats_detailed init_analysis (Text ''run_1'')
      [[header_line, data_line 20 7, data_line 30 5], [header_line, data_line 10 9]] [] [9]
     = Inr \<lparr>score_table = \<lparr>columns = [''MC_frame'', ''rmf_frame_index'', ''Total_score''],
                            rows = [row_of [10, 0, 9], row_of [20, 0, 7], row_of [30, 0, 5]]\<rparr>,
            dist_table = None, satif_table = None\<rparr>
   \<and> distinct [10, 20, 30 :: real]
   \<and> mset [[header_line, data_line 10 9], [header_line, data_line 20 7, data_line 30 5]]
       = mset [[header_line, data_line 20 7, data_line 30 5], [header_line, data_line 10 9]]
   \<and> sorted_wrt (<) [10, 20, 30 :: real]
   \<and> frame_column_of (read_stats_detailed init_analysis (Text ''run_1'')
        [[header_line, data_line 10 9], [header_line, data_line 20 7, data_line 30 5]] [] [9])
       = Some [10, 20, 30]"
proof -
  let ?st = "\<lparr>score_table = \<lparr>columns = [''MC_frame'', ''rmf_frame_index'', ''Total_score''],
                            rows = [row_of [10, 0, 9], row_of [20, 0, 7], row_of [30, 0, 5]]\<rparr>,
            dist_table = None, satif_table = None\<rparr>"
  have h: "read_stats_detailed init_analysis (Text ''run_1'')
      [[header_line, data_line 20 7, data_line 30 5], [header_line, data_line 10 9]] [] [9] = Inr ?st"
    by (simp add: parser_example_defs)
  have fr: "MC_frame (score_table ?st) = [10, 20, 30]"
    by (simp add: MC_frame_def frame_key_def row_of_def)
  have d: "distinct [10, 20, 30 :: real]" by simp
  have m: "mset [[header_line, data_line 10 9], [header_line, data_line 20 7, data_line 30 5]]
       = mset [[header_line, data_line 20 7, data_line 30 5], [header_line, data_line 10 9]]"
    by simp
  note t = frame_column_ascending [OF h, unfolded fr]
  from t d have 1: "sorted_wrt (<) [10, 20, 30 :: real]" by blast
  from t m have 2: "frame_column_of (read_stats_detailed init_analysis (Text ''run_1'')
        [[header_line, data_line 10 9], [header_line, data_line 20 7, data_line 30 5]] [] [9])
       = Some [10, 20, 30]" by blast
  from h d m 1 2 show ?thesis by blast
qed

text \<open>
  Two files that each hold a line of frame 5 give the frame column \<open>[5, 5]\<close>, which is
  not strictly ascending.
\<close>

theorem frame_column_not_strictly_ascending:
  "frame_column_of (read_stats_detailed init_analysis (Text ''run_1'')
      [[header_line, data_line 5 1], [header_line, data_line 5 2]] [] [9]) = Some [5, 5]
   \<and> \<not> sorted_wrt (<) [5 :: real, 5]"
  by (simp add: parser_example_defs frame_column_of_def MC_frame_def)

section \<open>The sum columns\<close>

text \<open>
  C8. The claim asks for a sum column for every restraint that is analysed with its sum
  wanted and that has several fields. With the membrane surface location restraint
  analysed, its sum wanted and two fields of it in the header, the table that
  \<^verbatim>\<open>read_stats_detailed\<close> returns has the two columns of the restraint and no column
  \<^verbatim>\<open>'MSL_sum'\<close>: the block that adds it (lines 442 to 444) tests the flags of the membrane
  exclusion restraint, which is not analysed.
\<close>

theorem msl_sum_column_missing:
  "read_stats_detailed msl_analysis (Text ''run_1'')
      [[header_line, data_line2 10 9 5 25 1 2, data_line2 20 8 6 35 3 4]] [] [9]
     = Inr \<lparr>score_table =
              \<lparr>columns = [''MC_frame'', ''rmf_frame_index'', ''Total_score'', ''XLs_sum'',
                          ''MSL_inner'', ''MSL_outer''],
               rows = [row_of [10, 0, 9, 5, 1, 2], row_of [20, 0, 8, 6, 3, 4]]\<rparr>,
            dist_table = Some \<lparr>dist_columns = [''MC_frame'', distance_name],
                                dist_rows = [[10, 25], [20, 35]]\<rparr>,
            satif_table = None\<rparr>
   \<and> MembraneSurfaceLocation_restraint msl_analysis
   \<and> sum_MembraneSurfaceLocation_restraint msl_analysis
   \<and> \<not> MembraneExclusion_restraint msl_analysis
   \<and> column \<lparr>columns = [''MC_frame'', ''rmf_frame_index'', ''Total_score'', ''XLs_sum'',
                          ''MSL_inner'', ''MSL_outer''],
               rows = [row_of [10, 0, 9, 5, 1, 2], row_of [20, 0, 8, 6, 3, 4]]\<rparr> ''MSL_sum'' = None"
  by (simp add: parser_example_defs msl_analysis_def data_line2_def column_def assign_def
      add_restraint_type_def sublist_code sort_by_column0_def DistFrame_def)

text \<open>
  The same header and lines with two fields of the excluded volume restraint: the table
  has the column \<^verbatim>\<open>'EV_sum'\<close>, row by row the sum of the two.
\<close>

lemma ev_sum_column_example:
  "read_stats_detailed ev_analysis (Text ''run_1'')
      [[header_line, data_line2 10 9 5 25 1 2, data_line2 20 8 6 35 3 4]] [] [9]
     = Inr \<lparr>score_table =
              \<lparr>columns = [''MC_frame'', ''rmf_frame_index'', ''Total_score'', ''EV_None'', ''EV_rigid'',
                          ''XLs_sum'', ''EV_sum''],
               rows = [row_of [10, 0, 9, 1, 2, 5, 3], row_of [20, 0, 8, 3, 4, 6, 7]]\<rparr>,
            dist_table = Some \<lparr>dist_columns = [''MC_frame'', distance_name],
                                dist_rows = [[10, 25], [20, 35]]\<rparr>,
            satif_table = None\<rparr>"
  by (simp add: parser_example_defs ev_analysis_def data_line2_def assign_def add_restraint_type_def
      sublist_code sort_by_column0_def DistFrame_def)

text \<open>
  A block whose condition holds gives the table the column of the sum, row by row the sum
  of the columns whose name contains the key of the restraint.
\<close>

lemma index_of_less: "c \<in> set cs \<Longrightarrow> index_of c cs < length cs"
  by (induction cs) auto

lemma index_of_fresh: "c \<notin> set cs \<Longrightarrow> index_of c (cs @ [c]) = length cs"
  by (induction cs) auto

lemma sum_block_column:
  assumes "well_formed D"
  shows "column (sum_block True short D) (short @ ''_sum'') = Some (add_restraint_type D (short @ ''_''))"
proof -
  let ?name = "short @ ''_sum''" and ?col = "add_restraint_type D (short @ ''_'')"
  have len: "length ?col = length (rows D)" by (simp add: add_restraint_type_def)
  have rowlen: "\<forall>r \<in> set (rows D). length (vals r) = length (columns D)"
    using assms by (simp add: well_formed_def)
  have in_rows: "\<And>rv. rv \<in> set (zip (rows D) ?col) \<Longrightarrow> length (vals (fst rv)) = length (columns D)"
    using rowlen by (metis in_set_zipE prod.collapse)
  have snd_zip: "map snd (zip (rows D) ?col) = ?col"
    using len by (simp add: map_snd_zip)
  show ?thesis
  proof (cases "?name \<in> set (columns D)")
    case True
    have "map (\<lambda>r. vals r ! index_of ?name (columns D)) (rows (assign D ?name ?col))
          = map snd (zip (rows D) ?col)"
      using True in_rows index_of_less [OF True] by (simp add: assign_def)
    with True snd_zip show ?thesis by (simp add: sum_block_def column_def assign_def)
  next
    case False
    have "map (\<lambda>r. vals r ! index_of ?name (columns D @ [?name])) (rows (assign D ?name ?col))
          = map snd (zip (rows D) ?col)"
      using False in_rows index_of_fresh [OF False] by (simp add: assign_def nth_append)
    with False snd_zip show ?thesis by (simp add: sum_block_def column_def assign_def)
  qed
qed

section \<open>Properties of the equilibration cutoff\<close>

lemma ts_eq_map: "ts_eq det D rs = map (column_cutoff det D) rs"
  by (induction rs) simp_all

lemma fold_max_Max: "fold max ys (x::nat) = Max (set (x # ys))"
proof (induction ys arbitrary: x)
  case Nil
  show ?case by simp
next
  case (Cons y ys)
  have "fold max (y # ys) x = Max (set (max y x # ys))" using Cons by simp
  also have "\<dots> = Max (set (x # y # ys))"
    by (cases "ys = []") (simp_all add: max.commute max.left_commute max.assoc)
  finally show ?case .
qed

lemma np_max_Max: "xs \<noteq> [] \<Longrightarrow> np_max xs = Inr (Max (set xs))"
  by (cases xs) (simp_all add: np_max_def fold_max_Max del: set_simps)

text \<open>
  C4. The cutoff of a trajectory is always computed (the list of the columns is never
  empty: it starts with the total score), and it is the greatest cutoff of the columns
  that are looked at, plus the 50 frames left out at the start. The cutoff of a column
  is the index that the detector gives for the values of the column after the first 50,
  and 0 when the detector fails on them.
\<close>

theorem equilibration_cutoff:
  "ts_max detectEquilibration a D
     = Inr (Max (set (map (column_cutoff detectEquilibration D) (sel_entries a D))) + 50)
   \<and> ''Total_score'' \<in> set (sel_entries a D)
   \<and> (\<forall>r c t g N. column D r = Some c \<and> detectEquilibration (drop 50 c) = Some (t, g, N)
         \<longrightarrow> column_cutoff detectEquilibration D r = t)
   \<and> (\<forall>r c. column D r = Some c \<and> detectEquilibration (drop 50 c) = None
         \<longrightarrow> column_cutoff detectEquilibration D r = 0)"
proof -
  have ne: "sel_entries a D \<noteq> []" by (simp add: sel_entries_def)
  then have "ts_eq detectEquilibration D (sel_entries a D) \<noteq> []" by (simp add: ts_eq_map)
  from np_max_Max [OF this]
  have 1: "ts_max detectEquilibration a D
     = Inr (Max (set (map (column_cutoff detectEquilibration D) (sel_entries a D))) + 50)"
    by (simp add: ts_max_def ts_eq_map th_def)
  have 2: "''Total_score'' \<in> set (sel_entries a D)" by (simp add: sel_entries_def)
  have 3: "\<forall>r c t g N. column D r = Some c \<and> detectEquilibration (drop 50 c) = Some (t, g, N)
         \<longrightarrow> column_cutoff detectEquilibration D r = t"
    by (simp add: column_cutoff_def th_def)
  have 4: "\<forall>r c. column D r = Some c \<and> detectEquilibration (drop 50 c) = None
         \<longrightarrow> column_cutoff detectEquilibration D r = 0"
    by (simp add: column_cutoff_def th_def)
  from 1 2 3 4 show ?thesis by blast
qed


theorem equilibration_cutoff_witness:
  "column long_table ''Total_score'' = Some (map (\<lambda>i. 100 - real i) [0..<53])
   \<and> example_detector (drop 50 (map (\<lambda>i. 100 - real i) [0..<53])) = Some (2, 1, 3)
   \<and> column_cutoff example_detector long_table ''Total_score'' = 2
   \<and> ts_max example_detector init_analysis long_table = Inr 52
   \<and> column \<lparr>columns = [''MC_frame'', ''rmf_frame_index'', ''Total_score''], rows = [row_of [10, 0, 9]]\<rparr>
        ''Total_score'' = Some [9]
   \<and> example_detector (drop 50 [9]) = None
   \<and> column_cutoff example_detector
        \<lparr>columns = [''MC_frame'', ''rmf_frame_index'', ''Total_score''], rows = [row_of [10, 0, 9]]\<rparr>
        ''Total_score'' = 0"
proof -
  let ?small = "\<lparr>columns = [''MC_frame'', ''rmf_frame_index'', ''Total_score''], rows = [row_of [10, 0, 9]]\<rparr>"
  have c: "column long_table ''Total_score'' = Some (map (\<lambda>i. 100 - real i) [0..<53])"
    by (simp add: long_table_def column_def row_of_def)
  have dr: "drop 50 (map (\<lambda>i. 100 - real i) [0..<53]) = [50, 49, 48]"
    by (simp add: drop_map upt_rec)
  have d: "example_detector (drop 50 (map (\<lambda>i. 100 - real i) [0..<53])) = Some (2, 1, 3)"
    unfolding dr by (simp add: example_detector_def)
  have c2: "column ?small ''Total_score'' = Some [9]"
    by (simp add: column_def row_of_def)
  have d2: "example_detector (drop 50 [9]) = None"
    by (simp add: example_detector_def)
  have sel: "sel_entries init_analysis long_table = [''Total_score'']"
    by (simp add: sel_entries_def individual_def init_analysis_def long_table_def sublist_code)
  note t = equilibration_cutoff [of example_detector init_analysis long_table]
  from t c d have k: "column_cutoff example_detector long_table ''Total_score'' = 2" by blast
  from t have "ts_max example_detector init_analysis long_table
     = Inr (Max (set (map (column_cutoff example_detector long_table) (sel_entries init_analysis long_table))) + 50)"
    by blast
  then have m: "ts_max example_detector init_analysis long_table = Inr 52"
    unfolding sel by (simp add: k)
  from equilibration_cutoff [of example_detector init_analysis ?small] c2 d2
  have k2: "column_cutoff example_detector ?small ''Total_score'' = 0" by blast
  from c d k m c2 d2 k2 show ?thesis by blast
qed

section \<open>Properties of the satisfaction of the cross-links\<close>

lemma satisfied_fraction_bounds: "0 \<le> satisfied_fraction c x \<and> satisfied_fraction c x \<le> 1"
proof -
  have "length (filter (le_cutoff c) x) \<le> length x" by (rule length_filter_le)
  then have "real (length (filter (le_cutoff c) x)) \<le> real (length x)" by simp
  then show ?thesis
    by (cases "x = []") (simp_all add: satisfied_fraction_def divide_le_eq_1)
qed

lemma perc_per_step_bounds: "p \<in> set (perc_per_step n c T) \<Longrightarrow> 0 \<le> p \<and> p \<le> 1"
  using satisfied_fraction_bounds by (auto simp: perc_per_step_def split: if_splits)

lemma get_XLs_satisfaction_bounds:
  assumes "get_XLs_satisfaction cfg S atomic_XLs type_XLs type_psi = Inr ps" and "p \<in> set ps"
  shows "0 \<le> p \<and> p \<le> 1"
  using assms perc_per_step_bounds
  by (auto simp: get_XLs_satisfaction_def split: sum.splits if_splits prod.splits)

lemma row_min_Min: "xs \<noteq> [] \<Longrightarrow> row_min xs = Some (Min (set xs))"
  by (cases xs) (simp_all add: row_min_def Min.set_eq_fold del: set_simps)

lemma select_columns_rows:
  "set names \<subseteq> set (dist_columns X) \<Longrightarrow>
     select_columns X names = Inr \<lparr>dist_columns = names, dist_rows = map (\<lambda>r. distances X r names) (dist_rows X)\<rparr>"
  by (auto simp: select_columns_def)

lemma min_XLs_eq:
  "\<forall>kv \<in> set groups. set (snd kv) \<subseteq> set (dist_columns X) \<Longrightarrow>
     min_XLs X groups
       = Inr (map (\<lambda>r. map (\<lambda>kv. row_min (distances X r (snd kv))) groups) (dist_rows X))"
proof (induction groups)
  case Nil
  show ?case by simp
next
  case (Cons kv groups)
  have sel: "select_columns X (snd kv)
      = Inr \<lparr>dist_columns = snd kv, dist_rows = map (\<lambda>r. distances X r (snd kv)) (dist_rows X)\<rparr>"
    using Cons.prems by (intro select_columns_rows) simp
  have ih: "min_XLs X groups
       = Inr (map (\<lambda>r. map (\<lambda>kv. row_min (distances X r (snd kv))) groups) (dist_rows X))"
    using Cons by simp
  show ?case
    by (simp add: sel ih zip_map_map map_zip_map map_zip_map2 zip_same_conv_map)
qed

lemma satisfied_fraction_groups:
  assumes "\<forall>kv \<in> set groups. snd kv \<noteq> []"
  shows "satisfied_fraction cutoff (map (\<lambda>kv. row_min (distances X r (snd kv))) groups)
     = real (length (filter (\<lambda>kv. Min (set (distances X r (snd kv))) \<le> cutoff) groups))
         / real (length groups)"
proof -
  have "\<And>kv. kv \<in> set groups \<Longrightarrow>
      le_cutoff cutoff (row_min (distances X r (snd kv))) = (Min (set (distances X r (snd kv))) \<le> cutoff)"
    using assms by (simp add: le_cutoff_def row_min_Min distances_def)
  then have "filter (le_cutoff cutoff \<circ> (\<lambda>kv. row_min (distances X r (snd kv)))) groups
      = filter (\<lambda>kv. Min (set (distances X r (snd kv))) \<le> cutoff) groups"
    by (intro filter_cong) simp_all
  then show ?thesis
    by (simp add: satisfied_fraction_def filter_map)
qed

text \<open>
  C5. Every fraction that \<^verbatim>\<open>get_XLs_satisfaction\<close> returns lies between 0 and 1. With
  the ambiguity switched on, and at least one ambiguous cross-link, each of them with
  at least one column among the selected distances, the function returns, for each
  frame, the number of the cross-links whose least distance over their columns is at
  most the cutoff, divided by the number of the cross-links: a cross-link counts exactly
  when the least of its alternatives is within the cutoff, and nothing else of its
  alternatives enters the fraction.
\<close>

theorem satisfaction_fraction:
  "(get_XLs_satisfaction cfg S atomic_XLs type_XLs type_psi = Inr ps
      \<longrightarrow> (\<forall>p \<in> set ps. 0 \<le> p \<and> p \<le> 1))
   \<and> (select_distances cfg (dist_columns S) atomic_XLs type_XLs type_psi = Inr (dist_cols, cutoff)
       \<and> select_columns S dist_cols = Inr X
       \<and> ambiguous_XLs_restraint cfg
       \<and> groups_of cfg type_XLs = Inr groups
       \<and> groups \<noteq> []
       \<and> (\<forall>kv \<in> set groups. snd kv \<noteq> [] \<and> set (snd kv) \<subseteq> set dist_cols)
      \<longrightarrow> get_XLs_satisfaction cfg S atomic_XLs type_XLs type_psi
            = Inr (map (\<lambda>r. real (length (filter (\<lambda>kv. Min (set (distances X r (snd kv))) \<le> cutoff) groups))
                             / real (length groups))
                     (dist_rows X)))"
proof (intro conjI impI)
  assume "get_XLs_satisfaction cfg S atomic_XLs type_XLs type_psi = Inr ps"
  then show "\<forall>p \<in> set ps. 0 \<le> p \<and> p \<le> 1"
    using get_XLs_satisfaction_bounds by blast
next
  assume a: "select_distances cfg (dist_columns S) atomic_XLs type_XLs type_psi = Inr (dist_cols, cutoff)
       \<and> select_columns S dist_cols = Inr X
       \<and> ambiguous_XLs_restraint cfg
       \<and> groups_of cfg type_XLs = Inr groups
       \<and> groups \<noteq> []
       \<and> (\<forall>kv \<in> set groups. snd kv \<noteq> [] \<and> set (snd kv) \<subseteq> set dist_cols)"
  then have X: "dist_columns X = dist_cols"
    by (auto simp: select_columns_def split: if_splits)
  have m: "min_XLs X groups
       = Inr (map (\<lambda>r. map (\<lambda>kv. row_min (distances X r (snd kv))) groups) (dist_rows X))"
    using a X by (intro min_XLs_eq) simp
  have ne: "\<forall>kv \<in> set groups. snd kv \<noteq> []" using a by simp
  have "get_XLs_satisfaction cfg S atomic_XLs type_XLs type_psi
      = Inr (perc_per_step (length groups) cutoff
              (map (\<lambda>r. map (\<lambda>kv. row_min (distances X r (snd kv))) groups) (dist_rows X)))"
    using a m by (simp add: get_XLs_satisfaction_def)
  also have "\<dots> = Inr (map (\<lambda>r. real (length (filter (\<lambda>kv. Min (set (distances X r (snd kv))) \<le> cutoff) groups))
                             / real (length groups))
                     (dist_rows X))"
    using a satisfied_fraction_groups [OF ne] by (simp add: perc_per_step_def)
  finally show "get_XLs_satisfaction cfg S atomic_XLs type_XLs type_psi
            = Inr (map (\<lambda>r. real (length (filter (\<lambda>kv. Min (set (distances X r (snd kv))) \<le> cutoff) groups))
                             / real (length groups))
                     (dist_rows X))" .
qed

lemmas satisfaction_example_defs =
  get_XLs_satisfaction_def example_settings_def example_dist_def xl_names_def
  select_distances_def truthy_def first_cutoff_def select_columns_def distances_def groups_of_def
  row_min_def perc_per_step_def satisfied_fraction_def le_cutoff_def sublist_code

theorem satisfaction_fraction_witness:
  "get_XLs_satisfaction example_settings example_dist False None None = Inr [1 / 2, 1 / 2, 1]
   \<and> (1 / 2 :: real) \<in> set [1 / 2, 1 / 2, 1]
   \<and> 0 \<le> (1 / 2 :: real) \<and> (1 / 2 :: real) \<le> 1
   \<and> select_distances example_settings (dist_columns example_dist) False None None
       = Inr (xl_names, 30)
   \<and> select_columns example_dist xl_names
       = Inr \<lparr>dist_columns = xl_names, dist_rows = [[45, 25, 50], [45, 35, 28], [12, 35, 28]]\<rparr>
   \<and> ambiguous_XLs_restraint example_settings
   \<and> groups_of example_settings None = Inr (ambiguous_XLs_dict example_settings)
   \<and> ambiguous_XLs_dict example_settings
       = [(''1'', [xl_names ! 0, xl_names ! 1]), (''2'', [xl_names ! 2])]
   \<and> get_XLs_satisfaction example_settings example_dist False None None
       = Inr (map (\<lambda>r. real (length (filter
                 (\<lambda>kv. Min (set (distances
                     \<lparr>dist_columns = xl_names, dist_rows = [[45, 25, 50], [45, 35, 28], [12, 35, 28]]\<rparr>
                     r (snd kv))) \<le> 30)
                 (ambiguous_XLs_dict example_settings)))
               / real (length (ambiguous_XLs_dict example_settings)))
            [[45, 25, 50], [45, 35, 28], [12, 35, 28]])"
proof -
  let ?X = "\<lparr>dist_columns = xl_names, dist_rows = [[45, 25, 50], [45, 35, 28], [12, 35, 28 :: real]]\<rparr>"
  let ?G = "ambiguous_XLs_dict example_settings"
  have g: "get_XLs_satisfaction example_settings example_dist False None None = Inr [1 / 2, 1 / 2, 1]"
    by (simp add: satisfaction_example_defs)
  have s: "select_distances example_settings (dist_columns example_dist) False None None
       = Inr (xl_names, 30)"
    by (simp add: satisfaction_example_defs)
  have x: "select_columns example_dist xl_names = Inr ?X"
    by (simp add: satisfaction_example_defs)
  have a: "ambiguous_XLs_restraint example_settings" by (simp add: example_settings_def)
  have gr: "groups_of example_settings None = Inr ?G" by (simp add: groups_of_def example_settings_def)
  have ne: "?G \<noteq> []" by (simp add: example_settings_def)
  have sub: "\<forall>kv \<in> set ?G. snd kv \<noteq> [] \<and> set (snd kv) \<subseteq> set xl_names"
    by (simp add: example_settings_def xl_names_def)
  note t = satisfaction_fraction [of example_settings example_dist False None None
      "[1 / 2, 1 / 2, 1]" xl_names 30 ?X ?G]
  from t g have b: "\<forall>p \<in> set [1 / 2, 1 / 2, 1 :: real]. 0 \<le> p \<and> p \<le> 1" by blast
  from t s x a gr ne sub
  have f: "get_XLs_satisfaction example_settings example_dist False None None
       = Inr (map (\<lambda>r. real (length (filter (\<lambda>kv. Min (set (distances ?X r (snd kv))) \<le> 30) ?G))
               / real (length ?G))
            (dist_rows ?X))"
    by blast
  have r: "dist_rows ?X = [[45, 25, 50], [45, 35, 28], [12, 35, 28]]" by simp
  note f' = f [unfolded r]
  have mem: "(1 / 2 :: real) \<in> set [1 / 2, 1 / 2, 1]" by simp
  with b have b1: "0 \<le> (1 / 2 :: real)" and b2: "(1 / 2 :: real) \<le> 1" by blast+
  have gv: "?G = [(''1'', [xl_names ! 0, xl_names ! 1]), (''2'', [xl_names ! 2])]"
    by (simp add: example_settings_def)
  show ?thesis
    by (intro conjI) (fact g mem b1 b2 s x a gr gv f')+
qed

section \<open>Properties of the selected clusters and of their files\<close>






































section \<open>The converged sample count\<close>

lemma sizes100: "sample_sizes 100 100 = Inr [10, 20, 30, 40, 50, 60, 70, 80, 90]"
  by (simp add: sample_sizes_def arange_def Let_def upt_rec)

text \<open>
  C2. Two halves of 100 models each, with draws in which the mean of the minimum of half
  A does not change while that of half B falls by 10 from each size to the next, both
  with the standard deviation 1. The fall of 10 of half B is never smaller than the
  standard deviation 1, so by the specification there is no converged sample count. The
  code compares the fall of half B with the mean of the next row (line 977 reads
  \<^verbatim>\<open>RH2[s+1,1]\<close> where the test of half A reads \<^verbatim>\<open>RH1[s+1,2]\<close>), counts a hit at
  every step, and returns the size 60.
\<close>

theorem converged_count_reads_mean_of_half_B:
  "length slip_A = 100 \<and> length slip_B = 100
   \<and> plot_scores_distributions slip_draws slip_A slip_B 0 = Inr 60
   \<and> spec_converged_size
        (map (\<lambda>m. (m, minimum_stats_A slip_draws 0 m)) [20, 30, 40, 50, 60, 70, 80, 90])
        (map (\<lambda>m. (m, minimum_stats_B slip_draws 0 m)) [20, 30, 40, 50, 60, 70, 80, 90]) 0 = None"
proof -
  have la: "length slip_A = 100" by (simp add: slip_A_def)
  have lb: "length slip_B = 100" by (simp add: slip_B_def)
  have p: "plot_scores_distributions slip_draws slip_A slip_B 0 = Inr 60"
    by (simp add: plot_scores_distributions_def la lb sizes100 slip_draws_def Let_def
        mean_of_def std_of_def size_of_def)
  have s: "spec_converged_size
        (map (\<lambda>m. (m, minimum_stats_A slip_draws 0 m)) [20, 30, 40, 50, 60, 70, 80, 90])
        (map (\<lambda>m. (m, minimum_stats_B slip_draws 0 m)) [20, 30, 40, 50, 60, 70, 80, 90]) 0 = None"
    by (simp add: slip_draws_def spec_step_converged_def mean_of_def std_of_def size_of_def)
  from la lb p s show ?thesis by blast
qed

end
